theory Spec2Isabelle
  imports Complex_Main "HOL-Library.Multiset" "HOL-Library.Sublist" "HOL-Library.AList"
begin

section \<open>JavaScript values and strings\<close>

text \<open>
  A raw record is whatever an adapter hands over, so it is modelled as a JSON value.
  \<open>JUndefined\<close> is the result of reading a property that is not there. A number is an
  integer of magnitude below \<open>2^53\<close>, which prints as its decimal digits (the normalizer
  tests numbers for truthiness and copies them; it prints one only where a number stands
  in for a string). A string is a list of code units below 256, and an object is an
  association list read with \<open>map_of\<close>.
\<close>

datatype jsval =
    JUndefined
  | JNull
  | JBool bool
  | JNum int
  | JStr string
  | JArr "jsval list"
  | JObj "(string \<times> jsval) list"

datatype error = TypeError

text \<open>\<open>String.prototype.toLowerCase\<close> on code units below 256: A-Z and the Latin-1 capitals.\<close>

definition toLowerChar :: "char \<Rightarrow> char" where
  "toLowerChar c =
     (let k = (of_char c :: nat)
      in if (65 \<le> k \<and> k \<le> 90) \<or> (192 \<le> k \<and> k \<le> 222 \<and> k \<noteq> 215)
         then char_of (k + 32) else c)"

definition toLowerCase :: "string \<Rightarrow> string" where
  "toLowerCase s = map toLowerChar s"

text \<open>White space as \<open>trim\<close> and \<open>\s\<close> see it, among the code units below 256.\<close>

definition isWhiteSpace :: "char \<Rightarrow> bool" where
  "isWhiteSpace c = ((of_char c :: nat) \<in> {9, 10, 11, 12, 13, 32, 160})"

definition trim :: "string \<Rightarrow> string" where
  "trim s = rev (dropWhile isWhiteSpace (rev (dropWhile isWhiteSpace s)))"

text \<open>\<open>s.replace(/\s+/g, '_')\<close>: every maximal run of white space becomes one underscore.\<close>

function replaceWhiteSpace :: "string \<Rightarrow> string" where
  "replaceWhiteSpace [] = []"
| "replaceWhiteSpace (c # cs) =
     (if isWhiteSpace c then CHR ''_'' # replaceWhiteSpace (dropWhile isWhiteSpace cs)
      else c # replaceWhiteSpace cs)"
  by pat_completeness auto
termination
  by (relation "measure length") (auto simp: length_dropWhile_le less_Suc_eq_le)

text \<open>
  \<open>Number.prototype.toString(radix)\<close> on an integer that is not negative, digits
  \<open>0-9a-z\<close>; it is called with the radix 10 and 36 only.
\<close>

definition digitChar :: "int \<Rightarrow> char" where
  "digitChar d = ''0123456789abcdefghijklmnopqrstuvwxyz'' ! nat d"

function toStringRadix :: "int \<Rightarrow> int \<Rightarrow> string" where
  "toStringRadix radix n =
     (if radix < 2 \<or> n < radix then [digitChar n]
      else toStringRadix radix (n div radix) @ [digitChar (n mod radix)])"
  by pat_completeness auto
termination
proof (relation "measure (\<lambda>(radix, n). nat n)")
  show "wf (measure (\<lambda>(radix, n). nat n))"
    by simp
next
  fix radix n :: int
  assume "\<not> (radix < 2 \<or> n < radix)"
  then have "2 \<le> radix" "radix \<le> n"
    by simp_all
  then have "n div radix < n"
    by (simp add: int_div_less_self)
  moreover have "0 < n"
    using \<open>2 \<le> radix\<close> \<open>radix \<le> n\<close> by simp
  ultimately show "((radix, n div radix), (radix, n)) \<in> measure (\<lambda>(radix, n). nat n)"
    by simp
qed

declare toStringRadix.simps [simp del]

definition intToString :: "int \<Rightarrow> string" where
  "intToString i = (if i < 0 then ''-'' @ toStringRadix 10 (- i) else toStringRadix 10 i)"

fun joinWith :: "string \<Rightarrow> string list \<Rightarrow> string" where
  "joinWith sep [] = []"
| "joinWith sep [x] = x"
| "joinWith sep (x # y # ys) = x @ sep @ joinWith sep (y # ys)"

text \<open>Truthiness, \<open>a || b\<close>, and the test for \<open>null\<close> or \<open>undefined\<close>.\<close>

definition truthy :: "jsval \<Rightarrow> bool" where
  "truthy v =
     (case v of
        JUndefined \<Rightarrow> False
      | JNull \<Rightarrow> False
      | JBool b \<Rightarrow> b
      | JNum n \<Rightarrow> n \<noteq> 0
      | JStr s \<Rightarrow> s \<noteq> []
      | JArr xs \<Rightarrow> True
      | JObj kvs \<Rightarrow> True)"

definition jsOr :: "jsval \<Rightarrow> jsval \<Rightarrow> jsval" where
  "jsOr a b = (if truthy a then a else b)"

definition nullish :: "jsval \<Rightarrow> bool" where
  "nullish v = (v = JUndefined \<or> v = JNull)"

text \<open>
  \<open>v.key\<close> for a value \<open>v\<close> that is neither \<open>null\<close> nor \<open>undefined\<close> and a key that
  is not a built-in property: an object gives its entry, anything else \<open>undefined\<close>.
\<close>

fun getProp :: "jsval \<Rightarrow> string \<Rightarrow> jsval" where
  "getProp (JObj kvs) k = (case map_of kvs k of Some v \<Rightarrow> v | None \<Rightarrow> JUndefined)"
| "getProp v k = JUndefined"

text \<open>
  \<open>String(v)\<close>, which is also what a template literal and \<open>join\<close> apply. An array is its
  elements joined by commas, \<open>null\<close> and \<open>undefined\<close> elements printing as nothing. An
  object prints through \<open>Object.prototype.toString\<close>, unless it has a property \<open>toString\<close>
  of its own: that is no function, and the conversion throws a TypeError. \<open>joinItems\<close>
  converts the elements of an array for \<open>join\<close>.
\<close>

fun toStr :: "jsval \<Rightarrow> error + string" and joinItems :: "jsval list \<Rightarrow> error + string list" where
  "toStr JUndefined = Inr ''undefined''"
| "toStr JNull = Inr ''null''"
| "toStr (JBool b) = Inr (if b then ''true'' else ''false'')"
| "toStr (JNum n) = Inr (intToString n)"
| "toStr (JStr s) = Inr s"
| "toStr (JArr xs) =
     (case joinItems xs of Inl e \<Rightarrow> Inl e | Inr strs \<Rightarrow> Inr (joinWith '','' strs))"
| "toStr (JObj kvs) =
     (if ''toString'' \<in> set (map fst kvs) then Inl TypeError else Inr ''[object Object]'')"
| "joinItems [] = Inr []"
| "joinItems (x # xs) =
     (case (if x = JUndefined \<or> x = JNull then Inr [] else toStr x) of
        Inl e \<Rightarrow> Inl e
      | Inr str \<Rightarrow>
          (case joinItems xs of Inl e \<Rightarrow> Inl e | Inr strs \<Rightarrow> Inr (str # strs)))"

text \<open>\<open>parts.join(sep)\<close>\<close>

definition joinArray :: "string \<Rightarrow> jsval list \<Rightarrow> error + string" where
  "joinArray sep parts =
     (case joinItems parts of Inl e \<Rightarrow> Inl e | Inr strs \<Rightarrow> Inr (joinWith sep strs))"

text \<open>\<open>xs.map(f)\<close> for a callback that may throw: the first throw ends the map.\<close>

fun mapThrowing :: "('a \<Rightarrow> error + 'b) \<Rightarrow> 'a list \<Rightarrow> error + 'b list" where
  "mapThrowing f [] = Inr []"
| "mapThrowing f (x # xs) =
     (case f x of
        Inl e \<Rightarrow> Inl e
      | Inr y \<Rightarrow> (case mapThrowing f xs of Inl e \<Rightarrow> Inl e | Inr ys \<Rightarrow> Inr (y # ys)))"

text \<open>
  \<open>v?.substring(0, n)\<close>: \<open>undefined\<close> for a missing \<open>v\<close>, the prefix for a string, and
  a TypeError for any other value, which has no function \<open>substring\<close>.
\<close>

definition optSubstring :: "jsval \<Rightarrow> nat \<Rightarrow> error + jsval" where
  "optSubstring v n =
     (case v of
        JUndefined \<Rightarrow> Inr JUndefined
      | JNull \<Rightarrow> Inr JUndefined
      | JStr s \<Rightarrow> Inr (JStr (take n s))
      | _ \<Rightarrow> Inl TypeError)"

text \<open>
  \<open>v?.includes(x)\<close> for a string \<open>x\<close>: \<open>undefined\<close> for a missing \<open>v\<close>, the substring
  test for a string, the element test for an array, a TypeError for any other value.
\<close>

definition optIncludes :: "jsval \<Rightarrow> string \<Rightarrow> error + jsval" where
  "optIncludes v x =
     (case v of
        JUndefined \<Rightarrow> Inr JUndefined
      | JNull \<Rightarrow> Inr JUndefined
      | JStr s \<Rightarrow> Inr (JBool (sublist x s))
      | JArr xs \<Rightarrow> Inr (JBool (JStr x \<in> set xs))
      | _ \<Rightarrow> Inl TypeError)"

text \<open>\<open>Math.round\<close>: the nearest integer, a tie going up.\<close>

definition Math_round :: "rat \<Rightarrow> int" where
  "Math_round x = \<lfloor>x + 1 / 2\<rfloor>"

text \<open>
  \<open>Array.prototype.sort\<close> with a comparator. The sort is stable, so for a comparator that
  orders its arguments consistently the result is the one list that stable insertion gives.
  A comparator result of NaN counts as 0.
\<close>

fun insertBy :: "('a \<Rightarrow> 'a \<Rightarrow> int) \<Rightarrow> 'a \<Rightarrow> 'a list \<Rightarrow> 'a list" where
  "insertBy cmp x [] = [x]"
| "insertBy cmp x (y # ys) = (if cmp x y \<le> 0 then x # y # ys else y # insertBy cmp x ys)"

definition jsSort :: "('a \<Rightarrow> 'a \<Rightarrow> int) \<Rightarrow> 'a list \<Rightarrow> 'a list" where
  "jsSort cmp xs = foldr (insertBy cmp) xs []"

text \<open>
  The same sort for a comparator that may throw: the sort throws when a call of the
  comparator does. A list of fewer than two elements is returned without any call.
\<close>

fun insertByThrowing :: "('a \<Rightarrow> 'a \<Rightarrow> error + int) \<Rightarrow> 'a \<Rightarrow> 'a list \<Rightarrow> error + 'a list" where
  "insertByThrowing cmp x [] = Inr [x]"
| "insertByThrowing cmp x (y # ys) =
     (case cmp x y of
        Inl e \<Rightarrow> Inl e
      | Inr c \<Rightarrow>
          if c \<le> 0 then Inr (x # y # ys)
          else (case insertByThrowing cmp x ys of Inl e \<Rightarrow> Inl e | Inr zs \<Rightarrow> Inr (y # zs)))"

fun jsSortThrowing :: "('a \<Rightarrow> 'a \<Rightarrow> error + int) \<Rightarrow> 'a list \<Rightarrow> error + 'a list" where
  "jsSortThrowing cmp [] = Inr []"
| "jsSortThrowing cmp (x # xs) =
     (case jsSortThrowing cmp xs of Inl e \<Rightarrow> Inl e | Inr ys \<Rightarrow> insertByThrowing cmp x ys)"


section \<open>Signals\<close>

text \<open>
  The object literal that \<open>normalizeSignal\<close> returns. \<open>id\<close> and \<open>text\<close> are renamed
  \<open>sig_id\<close> and \<open>sig_text\<close>. \<open>sig_id\<close> is always a string and \<open>topics\<close> always an
  array of strings; every other field holds whatever value the raw record gave.
\<close>

record signal =
  sig_id :: string
  source :: jsval
  subSource :: jsval
  title :: jsval
  sig_text :: jsval
  url :: jsval
  date :: jsval
  collectedAt :: jsval
  topics :: "string list"
  sentiment :: jsval
  signalType :: jsval
  engagement :: jsval
  stars :: jsval
  marketCap :: jsval
  username :: jsval
  ticker :: jsval
  address :: jsval
  keyInsight :: jsval
  dataPoint :: jsval


text \<open>
  The hash of \<open>generateId\<close>. \<open>hash << 5\<close> and \<open>hash |= 0\<close> leave a signed 32-bit
  integer, written out here as the wrap-around of an integer.
\<close>

definition toInt32 :: "int \<Rightarrow> int" where
  "toInt32 x = (x + 2 ^ 31) mod 2 ^ 32 - 2 ^ 31"

definition hashStep :: "int \<Rightarrow> char \<Rightarrow> int" where
  "hashStep hash c = toInt32 ((toInt32 (hash * 2 ^ 5) - hash) + of_char c)"

text \<open>\<open>raw.url || raw.name || raw.text?.substring(0, 50) || ''\<close>, the third part of the id.\<close>

definition idKey :: "jsval \<Rightarrow> error + jsval" where
  "idKey raw =
     (if truthy (getProp raw ''url'') then Inr (getProp raw ''url'')
      else if truthy (getProp raw ''name'') then Inr (getProp raw ''name'')
      else case optSubstring (getProp raw ''text'') 50 of
             Inl e \<Rightarrow> Inl e
           | Inr textPrefix \<Rightarrow> Inr (jsOr textPrefix (JStr [])))"

text \<open>Reading a property of \<open>null\<close> or \<open>undefined\<close> throws; so does every function of a raw record.\<close>

definition generateId :: "jsval \<Rightarrow> error + string" where
  "generateId raw =
     (if nullish raw then Inl TypeError
      else case idKey raw of
             Inl e \<Rightarrow> Inl e
           | Inr key \<Rightarrow>
               let parts = [jsOr (getProp raw ''source'') (JStr []),
                            jsOr (getProp raw ''subSource'') (JStr []),
                            key]
               in case joinArray ''|'' parts of
                    Inl e \<Rightarrow> Inl e
                  | Inr str \<Rightarrow>
                      let hash = foldl hashStep 0 str
                      in Inr (''sig_'' @ toStringRadix 36 \<bar>hash\<bar>))"

definition extractTitle :: "jsval \<Rightarrow> error + jsval" where
  "extractTitle raw =
     (if nullish raw then Inl TypeError
      else if truthy (getProp raw ''name'') then Inr (getProp raw ''name'')
      else if truthy (getProp raw ''text'') then
        (case getProp raw ''text'' of
           JStr s \<Rightarrow> Inr (JStr (trim (take 100 s)))
         | _ \<Rightarrow> Inl TypeError)
      else if truthy (getProp raw ''ticker'') then
        (case toStr (getProp raw ''ticker'') of
           Inl e \<Rightarrow> Inl e
         | Inr str \<Rightarrow> Inr (JStr (''$'' @ str)))
      else Inr (JStr ''Untitled Signal''))"

definition classifySignalType :: "jsval \<Rightarrow> error + jsval" where
  "classifySignalType raw =
     (if nullish raw then Inl TypeError
      else if getProp raw ''source'' = JStr ''github'' then Inr (JStr ''developer_activity'')
      else if getProp raw ''source'' = JStr ''research'' then Inr (JStr ''research_insight'')
      else case optIncludes (getProp raw ''subSource'') ''pumpfun'' of
             Inl e \<Rightarrow> Inl e
           | Inr pumpfun \<Rightarrow>
        (case (if truthy pumpfun then Inr pumpfun
               else optIncludes (getProp raw ''subSource'') ''dexscreener'') of
             Inl e \<Rightarrow> Inl e
           | Inr token \<Rightarrow>
               if truthy token then Inr (JStr ''token_activity'')
               else if getProp raw ''source'' = JStr ''onchain'' then Inr (JStr ''onchain_activity'')
               else if getProp raw ''source'' = JStr ''social'' then
                 (if getProp raw ''subSource'' = JStr ''kol'' then Inr (JStr ''kol_signal'')
                  else if getProp raw ''subSource'' = JStr ''trending'' then Inr (JStr ''social_trending'')
                  else Inr (JStr ''social_mention''))
               else Inr (JStr ''general'')))"

text \<open>\<open>[...new Set(xs)]\<close>: the first occurrence of each element, in order.\<close>

definition uniqueInOrder :: "'a list \<Rightarrow> 'a list" where
  "uniqueInOrder xs = rev (remdups (rev xs))"

definition dedupeTopics :: "jsval \<Rightarrow> error + string list" where
  "dedupeTopics rawTopics =
     (case rawTopics of
        JArr ts \<Rightarrow>
          (case mapThrowing (\<lambda>t. case toStr t of
                                    Inl e \<Rightarrow> Inl e
                                  | Inr str \<Rightarrow> Inr (replaceWhiteSpace (trim (toLowerCase str)))) ts of
             Inl e \<Rightarrow> Inl e
           | Inr normalized \<Rightarrow>
               Inr (uniqueInOrder (filter (\<lambda>t. length t > 0 \<and> length t < 50) normalized)))
      | _ \<Rightarrow> Inr [])"

text \<open>\<open>a || f(raw)\<close>, where the call on the right may throw and runs only for a falsy \<open>a\<close>.\<close>

definition orElse :: "jsval \<Rightarrow> error + jsval \<Rightarrow> error + jsval" where
  "orElse a b = (if truthy a then Inr a else b)"

text \<open>
  \<open>normalizeSignal\<close>. Its two arguments \<open>now1\<close> and \<open>now2\<close> are what
  \<open>new Date().toISOString()\<close> gives for \<open>date\<close> and for \<open>collectedAt\<close>.
\<close>

definition normalizeSignal :: "string \<Rightarrow> string \<Rightarrow> jsval \<Rightarrow> error + signal" where
  "normalizeSignal now1 now2 raw =
     (case generateId raw of
        Inl e \<Rightarrow> Inl e
      | Inr i \<Rightarrow>
     (case orElse (jsOr (getProp raw ''name'') (getProp raw ''title'')) (extractTitle raw) of
        Inl e \<Rightarrow> Inl e
      | Inr ttl \<Rightarrow>
     (case dedupeTopics (jsOr (getProp raw ''topics'') (JArr [])) of
        Inl e \<Rightarrow> Inl e
      | Inr tps \<Rightarrow>
     (case orElse (getProp raw ''signalType'') (classifySignalType raw) of
        Inl e \<Rightarrow> Inl e
      | Inr ty \<Rightarrow>
          Inr \<lparr> sig_id = i,
                source = jsOr (getProp raw ''source'') (JStr ''unknown''),
                subSource = jsOr (jsOr (getProp raw ''subSource'') (getProp raw ''sub_source''))
                              (JStr ''unknown''),
                title = ttl,
                sig_text = jsOr (jsOr (getProp raw ''text'') (getProp raw ''description'')) (JStr []),
                url = jsOr (jsOr (jsOr (getProp raw ''url'') (getProp raw ''news_url''))
                              (getProp raw ''html_url'')) JNull,
                date = jsOr (jsOr (jsOr (getProp raw ''date'') (getProp raw ''createdAt''))
                              (getProp raw ''collectedAt'')) (JStr now1),
                collectedAt = jsOr (getProp raw ''collectedAt'') (JStr now2),
                topics = tps,
                sentiment = jsOr (getProp raw ''sentiment'') (JStr ''neutral''),
                signalType = ty,
                engagement = jsOr (getProp raw ''engagement'') JNull,
                stars = jsOr (getProp raw ''stars'') JNull,
                marketCap = jsOr (getProp raw ''marketCap'') JNull,
                username = jsOr (getProp raw ''username'') JNull,
                ticker = jsOr (getProp raw ''ticker'') JNull,
                address = jsOr (getProp raw ''address'') JNull,
                keyInsight = jsOr (getProp raw ''keyInsight'') JNull,
                dataPoint = jsOr (getProp raw ''dataPoint'') JNull \<rparr>))))"

text \<open>
  The loop of \<open>normalizeAll\<close>, with \<open>seen\<close> and \<open>normalized\<close> passed along; \<open>clock i\<close>
  holds the two clock readings on hand for record \<open>i\<close>.
\<close>

fun normalizeLoop ::
  "(nat \<Rightarrow> string \<times> string) \<Rightarrow> nat \<Rightarrow> string set \<Rightarrow> signal list \<Rightarrow> jsval list \<Rightarrow> error + signal list"
where
  "normalizeLoop clock i seen normalized [] = Inr normalized"
| "normalizeLoop clock i seen normalized (raw # rest) =
     (case normalizeSignal (fst (clock i)) (snd (clock i)) raw of
        Inl e \<Rightarrow> Inl e
      | Inr signal \<Rightarrow>
          if sig_id signal \<notin> seen
          then normalizeLoop clock (i + 1) (insert (sig_id signal) seen) (normalized @ [signal]) rest
          else normalizeLoop clock (i + 1) seen normalized rest)"

text \<open>
  \<open>new Date(v)\<close>. An array or an object is first converted to a string, which throws
  where \<open>String(v)\<close> throws. The time value of the date is given by the parameter
  \<open>dateValue\<close>, \<open>None\<close> for an invalid date.
\<close>

definition newDate :: "(jsval \<Rightarrow> int option) \<Rightarrow> jsval \<Rightarrow> error + int option" where
  "newDate dateValue v =
     (case v of
        JArr xs \<Rightarrow> (case toStr v of Inl e \<Rightarrow> Inl e | Inr str \<Rightarrow> Inr (dateValue (JStr str)))
      | JObj kvs \<Rightarrow> (case toStr v of Inl e \<Rightarrow> Inl e | Inr str \<Rightarrow> Inr (dateValue (JStr str)))
      | _ \<Rightarrow> Inr (dateValue v))"

text \<open>
  \<open>(a, b) => new Date(b.date) - new Date(a.date)\<close>; with an invalid date the difference
  is NaN.
\<close>

definition byDateDesc :: "(jsval \<Rightarrow> int option) \<Rightarrow> signal \<Rightarrow> signal \<Rightarrow> error + int" where
  "byDateDesc dateValue a b =
     (case newDate dateValue (date b) of
        Inl e \<Rightarrow> Inl e
      | Inr db \<Rightarrow>
          (case newDate dateValue (date a) of
             Inl e \<Rightarrow> Inl e
           | Inr da \<Rightarrow> Inr (case (db, da) of (Some x, Some y) \<Rightarrow> x - y | _ \<Rightarrow> 0)))"

definition normalizeAll ::
  "(jsval \<Rightarrow> int option) \<Rightarrow> (nat \<Rightarrow> string \<times> string) \<Rightarrow> jsval list \<Rightarrow> error + signal list"
where
  "normalizeAll dateValue clock rawSignals =
     (case normalizeLoop clock 0 {} [] rawSignals of
        Inl e \<Rightarrow> Inl e
      | Inr normalized \<Rightarrow> jsSortThrowing (byDateDesc dateValue) normalized)"

text \<open>A signal read as a raw record again: the same object, seen through its properties.\<close>

definition asRaw :: "signal \<Rightarrow> jsval" where
  "asRaw s =
     JObj [(''id'', JStr (sig_id s)), (''source'', source s), (''subSource'', subSource s),
           (''title'', title s), (''text'', sig_text s), (''url'', url s), (''date'', date s),
           (''collectedAt'', collectedAt s), (''topics'', JArr (map JStr (topics s))),
           (''sentiment'', sentiment s), (''signalType'', signalType s),
           (''engagement'', engagement s), (''stars'', stars s), (''marketCap'', marketCap s),
           (''username'', username s), (''ticker'', ticker s), (''address'', address s),
           (''keyInsight'', keyInsight s), (''dataPoint'', dataPoint s)]"


section \<open>Collection\<close>

text \<open>
  An adapter call settles with a list of raw records or with a reason for its failure.
  \<open>Promise.allSettled\<close> waits for all of them and reports each outcome.
\<close>

datatype ('r, 'a) settled = Fulfilled 'a | Rejected 'r

definition allSettled :: "('r + 'a) list \<Rightarrow> ('r, 'a) settled list" where
  "allSettled outcomes =
     map (\<lambda>outcome. case outcome of Inl reason \<Rightarrow> Rejected reason | Inr v \<Rightarrow> Fulfilled v) outcomes"

text \<open>
  \<open>if (result.status === 'fulfilled') allRawSignals.push(...result.value); else console.error(...)\<close>
\<close>

definition pushSettled :: "'a list \<Rightarrow> ('r, 'a list) settled \<Rightarrow> 'a list" where
  "pushSettled allRawSignals result =
     (case result of Fulfilled v \<Rightarrow> allRawSignals @ v | Rejected reason \<Rightarrow> allRawSignals)"

text \<open>
  The collection step of \<open>runCollection\<close>, up to the list it hands to \<open>normalizeAll\<close>. The
  four arguments are the outcomes of the four adapters, in the order of the source.
\<close>

definition collectRaw ::
  "'r + 'a list \<Rightarrow> 'r + 'a list \<Rightarrow> 'r + 'a list \<Rightarrow> 'r + 'a list \<Rightarrow> error + 'a list"
where
  "collectRaw social onchain github research =
     (case allSettled [social, onchain, github, research] of
        [socialResult, onchainResult, githubResult, researchResult] \<Rightarrow>
          Inr (pushSettled (pushSettled (pushSettled (pushSettled [] socialResult) onchainResult)
                 githubResult) researchResult)
      | _ \<Rightarrow> Inl TypeError)"


section \<open>Storage\<close>













section \<open>Scoring\<close>

text \<open>
  The \<open>scores\<close> object. Its keys \<open>evidence\<close>, \<open>velocity\<close>, \<open>stage\<close> and \<open>confidence\<close>
  carry the suffix \<open>_score\<close> here, the narrative having fields of the same names.
\<close>

record scores =
  crossSource :: int
  evidence_score :: int
  velocity_score :: int
  stage_score :: int
  confidence_score :: int
  signalCount :: int

text \<open>
  A narrative as the clustering step returns it; a field that may be missing is an option.
  The four fields that scoring writes are part of the record, \<open>None\<close> before scoring, and
  the extension part of the record stands for every other property (\<open>buildIdeas\<close>, ...).
  \<open>id\<close> and \<open>topics\<close> are renamed \<open>nid\<close> and \<open>ntopics\<close>.
\<close>

record narrative =
  nid :: string
  name :: string
  description :: string
  evidence :: "string list option"
  sources :: "string list option"
  ntopics :: "string list option"
  stage :: "string option"
  velocity :: "string option"
  confidence :: "rat option"
  scores :: "scores option"
  totalScore :: "int option"
  matchingSignalCount :: "nat option"
  rank :: "nat option"

text \<open>\<open>xs || []\<close>: an array is truthy, also when empty.\<close>

definition orEmpty :: "'a list option \<Rightarrow> 'a list" where
  "orEmpty xs = (case xs of None \<Rightarrow> [] | Some ys \<Rightarrow> ys)"

text \<open>\<open>confidence || 0.5\<close>: the number 0 is falsy, as a missing field is.\<close>

definition confidenceOrDefault :: "rat option \<Rightarrow> rat" where
  "confidenceOrDefault c = (case c of None \<Rightarrow> 1 / 2 | Some x \<Rightarrow> if x = 0 then 1 / 2 else x)"

text \<open>\<open>Object.values(scores)\<close>, in the order the keys were written.\<close>

definition scoreValues :: "scores \<Rightarrow> int list" where
  "scoreValues sc =
     [crossSource sc, evidence_score sc, velocity_score sc, stage_score sc,
      confidence_score sc, signalCount sc]"

definition matchingSignals :: "'a narrative_scheme \<Rightarrow> 'b signal_scheme list \<Rightarrow> 'b signal_scheme list" where
  "matchingSignals narrative signals =
     (let narrativeTopics = map toLowerCase (orEmpty (ntopics narrative))
      in filter (\<lambda>s. list_ex (\<lambda>t. toLowerCase t \<in> set narrativeTopics) (topics s)) signals)"

definition computeScores :: "'a narrative_scheme \<Rightarrow> 'b signal_scheme list \<Rightarrow> scores" where
  "computeScores narrative signals =
     \<lparr> crossSource = min (int (card (set (orEmpty (sources narrative)))) * 8) 30,
       evidence_score = min (int (length (orEmpty (evidence narrative))) * 8) 25,
       velocity_score =
         (if velocity narrative = Some ''rising'' then 20
          else if velocity narrative = Some ''stable'' then 10
          else 5),
       stage_score =
         (if stage narrative = Some ''emerging'' then 15
          else if stage narrative = Some ''accelerating'' then 12
          else 5),
       confidence_score = Math_round (confidenceOrDefault (confidence narrative) * 10),
       signalCount = min (int (length (matchingSignals narrative signals) div 2)) 10 \<rparr>"

text \<open>The body of the \<open>map\<close> callback: the narrative spread, then the four fields.\<close>

definition scoreNarrative :: "'b signal_scheme list \<Rightarrow> 'a narrative_scheme \<Rightarrow> 'a narrative_scheme" where
  "scoreNarrative signals narrative =
     (let sc = computeScores narrative signals;
          total = foldl (+) 0 (scoreValues sc)
      in narrative\<lparr> scores := Some sc,
                    totalScore := Some total,
                    matchingSignalCount := Some (length (matchingSignals narrative signals)),
                    rank := Some 0 \<rparr>)"

text \<open>\<open>(a, b) => b.totalScore - a.totalScore\<close>; with a total missing the difference is NaN.\<close>

definition byTotalScoreDesc :: "'a narrative_scheme \<Rightarrow> 'a narrative_scheme \<Rightarrow> int" where
  "byTotalScoreDesc a b =
     (case (totalScore b, totalScore a) of (Some x, Some y) \<Rightarrow> x - y | _ \<Rightarrow> 0)"

text \<open>\<open>scored.forEach((n, i) => { n.rank = i + 1; })\<close>\<close>

definition assignRanks :: "'a narrative_scheme list \<Rightarrow> 'a narrative_scheme list" where
  "assignRanks scored = map (\<lambda>(i, n). n\<lparr>rank := Some (i + 1)\<rparr>) (enumerate 0 scored)"

definition scoreNarratives :: "'a narrative_scheme list \<Rightarrow> 'b signal_scheme list \<Rightarrow> 'a narrative_scheme list" where
  "scoreNarratives narratives signals =
     assignRanks (jsSort byTotalScoreDesc (map (scoreNarrative signals) narratives))"


section \<open>Notions used to state the properties\<close>

text \<open>The total of a scored narrative as an integer (0 when the field is missing).\<close>

definition totalOf :: "'a narrative_scheme \<Rightarrow> int" where
  "totalOf n = (case totalScore n of Some t \<Rightarrow> t | None \<Rightarrow> 0)"

text \<open>
  A signal shares a topic with a narrative when one of its topics and one of the
  narrative's topics are equal up to letter case.
\<close>

definition spec_sharesTopic :: "'a narrative_scheme \<Rightarrow> 'b signal_scheme \<Rightarrow> bool" where
  "spec_sharesTopic n s =
     (\<exists>t \<in> set (topics s). \<exists>u \<in> set (orEmpty (ntopics n)). toLowerCase t = toLowerCase u)"

text \<open>A narrative with the four fields that scoring writes blanked out.\<close>

definition eraseEngineFields :: "'a narrative_scheme \<Rightarrow> 'a narrative_scheme" where
  "eraseEngineFields n =
     n\<lparr> scores := None, totalScore := None, matchingSignalCount := None, rank := None \<rparr>"

subsection \<open>Sample data\<close>

definition exampleNarrative :: narrative where
  "exampleNarrative =
     \<lparr> nid = ''defi-agents'', name = ''DeFi Agents'', description = ''Agents trading on chain'',
       evidence = Some [''e1'', ''e2'', ''e3''],
       sources = Some [''social'', ''onchain''],
       ntopics = Some [''DeFi'', ''agents''],
       stage = Some ''emerging'', velocity = Some ''rising'', confidence = Some (4 / 5),
       scores = None, totalScore = None, matchingSignalCount = None, rank = None \<rparr>"

definition signalWithTopics :: "string \<Rightarrow> string list \<Rightarrow> signal" where
  "signalWithTopics i ts =
     \<lparr> sig_id = i, source = JStr ''social'', subSource = JStr ''kol'', title = JStr ''t'',
       sig_text = JStr [], url = JNull, date = JStr ''2026-01-01T00:00:00.000Z'',
       collectedAt = JStr ''2026-01-01T00:00:00.000Z'', topics = ts,
       sentiment = JStr ''neutral'', signalType = JStr ''kol_signal'', engagement = JNull,
       stars = JNull, marketCap = JNull, username = JNull, ticker = JNull, address = JNull,
       keyInsight = JNull, dataPoint = JNull \<rparr>"

text \<open>Five signals; all but the third share a topic with \<open>exampleNarrative\<close>.\<close>

definition exampleSignals :: "signal list" where
  "exampleSignals =
     [signalWithTopics ''sig_1'' [''defi''],
      signalWithTopics ''sig_2'' [''nft'', ''AGENTS''],
      signalWithTopics ''sig_3'' [''gaming''],
      signalWithTopics ''sig_4'' [''defi'', ''agents''],
      signalWithTopics ''sig_5'' [''Defi'']]"

definition exampleScored :: narrative where
  "exampleScored =
     exampleNarrative\<lparr>
       scores := Some \<lparr> crossSource = 16, evidence_score = 24, velocity_score = 20,
                        stage_score = 15, confidence_score = 8, signalCount = 2 \<rparr>,
       totalScore := Some 85, matchingSignalCount := Some 4, rank := Some 1 \<rparr>"

text \<open>Two narratives that differ in their id only, so that their totals are equal.\<close>

definition tiedNarratives :: "narrative list" where
  "tiedNarratives =
     [exampleNarrative\<lparr>nid := ''first''\<rparr>, exampleNarrative\<lparr>nid := ''second''\<rparr>]"

text \<open>Two clock readings, a clock that stands still, and a date parser that knows numbers only.\<close>

definition sampleNow1 :: string where
  "sampleNow1 = ''2026-01-10T08:00:00.000Z''"

definition sampleNow2 :: string where
  "sampleNow2 = ''2026-01-24T08:00:00.000Z''"

definition sampleClock :: "nat \<Rightarrow> string \<times> string" where
  "sampleClock i = (sampleNow1, sampleNow1)"

definition sampleDateValue :: "jsval \<Rightarrow> int option" where
  "sampleDateValue v = (case v of JNum n \<Rightarrow> Some n | _ \<Rightarrow> None)"

text \<open>A repository record without a url, as the spec's scenario has it, and one with a url.\<close>

definition githubRepoRaw :: "int \<Rightarrow> jsval" where
  "githubRepoRaw starCount =
     JObj [(''source'', JStr ''github''), (''subSource'', JStr ''new_repos''),
           (''name'', JStr ''solana-labs/foo''), (''description'', JStr ''A program''),
           (''stars'', JNum starCount), (''topics'', JArr [JStr ''Solana'', JStr ''DeFi'']),
           (''createdAt'', JStr ''2026-01-01T00:00:00Z''),
           (''collectedAt'', JStr ''2026-01-02T00:00:00.000Z'')]"

definition githubUrlRaw :: "string \<Rightarrow> int \<Rightarrow> jsval" where
  "githubUrlRaw nm starCount =
     JObj [(''source'', JStr ''github''), (''subSource'', JStr ''trending''),
           (''name'', JStr nm), (''url'', JStr (''https://github.com/'' @ nm)),
           (''stars'', JNum starCount), (''topics'', JArr [JStr ''Solana'']),
           (''collectedAt'', JStr ''2026-01-02T00:00:00.000Z'')]"

text \<open>A token record as the pump.fun adapter builds it: a name, no url, an empty description.\<close>

definition pumpfunRaw :: "string \<Rightarrow> jsval" where
  "pumpfunRaw nm =
     JObj [(''source'', JStr ''onchain''), (''subSource'', JStr ''pumpfun_trending''),
           (''name'', JStr nm), (''ticker'', JStr ''TKN''), (''marketCap'', JNum 1000),
           (''description'', JStr []),
           (''topics'', JArr [JStr ''pumpfun'', JStr ''token_trending'', JStr ''memecoin'']),
           (''collectedAt'', JStr ''2026-01-02T00:00:00.000Z'')]"



text \<open>A post as the social adapter builds it: a text, no url and no name.\<close>

definition socialPostRaw :: "string \<Rightarrow> string \<Rightarrow> jsval" where
  "socialPostRaw user post =
     JObj [(''source'', JStr ''social''), (''subSource'', JStr ''kol''),
           (''username'', JStr user), (''text'', JStr post),
           (''topics'', JArr [JStr ''Solana'', JStr ''DePIN'']),
           (''date'', JStr ''2026-01-03''),
           (''collectedAt'', JStr ''2026-01-04T00:00:00.000Z'')]"

text \<open>
  Two repository records with urls and a duplicate of the first, and two posts keyed by
  their texts.
\<close>

definition sampleKeptRaws :: "jsval list" where
  "sampleKeptRaws =
     [githubUrlRaw ''solana-labs/foo'' 10,
      socialPostRaw ''alice'' ''gm, DePIN on Solana is heating up'',
      githubUrlRaw ''coral-xyz/anchor'' 7,
      githubUrlRaw ''solana-labs/foo'' 25,
      socialPostRaw ''bob'' ''restaking comes to Solana'']"

text \<open>A record whose text is a number.\<close>

definition numericTextRaw :: jsval where
  "numericTextRaw =
     JObj [(''source'', JStr ''social''), (''subSource'', JStr ''kol''), (''text'', JNum 123)]"

text \<open>A record with a url, one of whose topics is an object with a property \<open>toString\<close>.\<close>

definition unprintableTopicRaw :: jsval where
  "unprintableTopicRaw =
     JObj [(''source'', JStr ''social''), (''subSource'', JStr ''kol''),
           (''url'', JStr ''https://x.com/alice/status/1''), (''text'', JStr ''gm''),
           (''topics'', JArr [JStr ''solana'', JObj [(''toString'', JNum 1)]])]"

subsection \<open>Notions for the normalizer and the store\<close>

text \<open>
  The first available of url, name and the first 50 characters of text: the first of the
  three that is there and not empty.
\<close>

definition spec_firstAvailable :: "jsval \<Rightarrow> jsval option" where
  "spec_firstAvailable raw =
     find truthy
       [getProp raw ''url'',
        getProp raw ''name'',
        (case getProp raw ''text'' of JStr s \<Rightarrow> JStr (take 50 s) | _ \<Rightarrow> JUndefined)]"

text \<open>A value that \<open>String(v)\<close> converts without throwing.\<close>

definition spec_convertsToString :: "jsval \<Rightarrow> bool" where
  "spec_convertsToString v = (case toStr v of Inr str \<Rightarrow> True | Inl e \<Rightarrow> False)"

text \<open>
  A raw record of the expected shape: not \<open>null\<close>; its text a string when present; its
  subSource a string or an array when present; and every field that the normalizer
  prints (source, subSource, url, name, ticker, each topic) convertible to a string.
\<close>

definition spec_stringOrMissing :: "jsval \<Rightarrow> bool" where
  "spec_stringOrMissing v =
     (case v of JUndefined \<Rightarrow> True | JNull \<Rightarrow> True | JStr s \<Rightarrow> True | _ \<Rightarrow> False)"

definition spec_stringArrayOrMissing :: "jsval \<Rightarrow> bool" where
  "spec_stringArrayOrMissing v =
     (case v of JUndefined \<Rightarrow> True | JNull \<Rightarrow> True | JStr s \<Rightarrow> True | JArr xs \<Rightarrow> True
      | _ \<Rightarrow> False)"

definition spec_topicsConvert :: "jsval \<Rightarrow> bool" where
  "spec_topicsConvert v = (case v of JArr ts \<Rightarrow> list_all spec_convertsToString ts | _ \<Rightarrow> True)"

definition spec_wellFormedRaw :: "jsval \<Rightarrow> bool" where
  "spec_wellFormedRaw raw =
     (\<not> nullish raw
      \<and> spec_stringOrMissing (getProp raw ''text'')
      \<and> spec_stringArrayOrMissing (getProp raw ''subSource'')
      \<and> spec_convertsToString (getProp raw ''source'')
      \<and> spec_convertsToString (getProp raw ''subSource'')
      \<and> spec_convertsToString (getProp raw ''url'')
      \<and> spec_convertsToString (getProp raw ''name'')
      \<and> spec_convertsToString (getProp raw ''ticker'')
      \<and> spec_topicsConvert (getProp raw ''topics''))"

text \<open>The date fields of a raw record, which the sort of \<open>normalizeAll\<close> hands to \<open>new Date\<close>.\<close>

definition spec_datesConvert :: "jsval \<Rightarrow> bool" where
  "spec_datesConvert raw =
     (spec_convertsToString (getProp raw ''date'')
      \<and> spec_convertsToString (getProp raw ''createdAt'')
      \<and> spec_convertsToString (getProp raw ''collectedAt''))"

text \<open>
  A raw record whose id is built from fields that a signal keeps: a source and a
  subSource that are not empty, and for the key either a url, or, with no name and no
  \<open>news_url\<close> or \<open>html_url\<close> to take the url's place, its text (or no text and no
  description to take the text's place).
\<close>

definition spec_keptKey :: "jsval \<Rightarrow> bool" where
  "spec_keptKey raw =
     (truthy (getProp raw ''source'') \<and> truthy (getProp raw ''subSource'')
      \<and> (truthy (getProp raw ''url'')
           \<or> (\<not> truthy (getProp raw ''name'')
               \<and> \<not> truthy (getProp raw ''news_url'')
               \<and> \<not> truthy (getProp raw ''html_url'')
               \<and> (truthy (getProp raw ''text'') \<or> \<not> truthy (getProp raw ''description'')))))"





section \<open>The sort\<close>

lemma mset_insertBy: "mset (insertBy cmp x ys) = add_mset x (mset ys)"
  by (induction ys) auto

lemma mset_jsSort: "mset (jsSort cmp xs) = mset xs"
  by (induction xs) (simp_all add: jsSort_def mset_insertBy)

lemma set_jsSort: "set (jsSort cmp xs) = set xs"
  using mset_jsSort [of cmp xs] by (metis set_mset_mset)

lemma length_jsSort: "length (jsSort cmp xs) = length xs"
  using mset_jsSort [of cmp xs] by (metis size_mset)

text \<open>On scored narratives the comparator orders by total, and the sort is the library's stable sort.\<close>

lemma insertBy_scored:
  assumes "totalScore x \<noteq> None" and "\<forall>m \<in> set ys. totalScore m \<noteq> None"
  shows "insertBy byTotalScoreDesc x ys = insort_key (\<lambda>a. - totalOf a) x ys"
  using assms by (induction ys) (auto simp: byTotalScoreDesc_def totalOf_def)

lemma jsSort_scored:
  assumes "\<forall>m \<in> set xs. totalScore m \<noteq> None"
  shows "jsSort byTotalScoreDesc xs = sort_key (\<lambda>a. - totalOf a) xs"
  using assms
proof (induction xs)
  case Nil
  then show ?case by (simp add: jsSort_def)
next
  case (Cons x xs)
  have ih: "jsSort byTotalScoreDesc xs = sort_key (\<lambda>a. - totalOf a) xs"
    using Cons by simp
  have tot: "\<forall>m \<in> set (sort_key (\<lambda>a. - totalOf a) xs). totalScore m \<noteq> None"
    using Cons.prems by simp
  have x: "totalScore x \<noteq> None"
    using Cons.prems by simp
  have "jsSort byTotalScoreDesc (x # xs) = insertBy byTotalScoreDesc x (jsSort byTotalScoreDesc xs)"
    by (simp add: jsSort_def)
  also have "\<dots> = insort_key (\<lambda>a. - totalOf a) x (sort_key (\<lambda>a. - totalOf a) xs)"
    using insertBy_scored [OF x tot] ih by simp
  finally show ?case by simp
qed


section \<open>Properties of scoring\<close>

lemma matchingSignals_spec:
  "matchingSignals n signals = filter (spec_sharesTopic n) signals"
  unfolding matchingSignals_def spec_sharesTopic_def Let_def
  by (rule filter_cong) (auto simp: list_ex_iff)

lemma scoreNarrative_scores: "scores (scoreNarrative signals n) = Some (computeScores n signals)"
  by (simp add: scoreNarrative_def Let_def)

lemma scoreNarrative_total:
  "totalScore (scoreNarrative signals n) = Some (foldl (+) 0 (scoreValues (computeScores n signals)))"
  by (simp add: scoreNarrative_def Let_def)

lemma scored_total: "\<forall>m \<in> set (map (scoreNarrative signals) ns). totalScore m \<noteq> None"
  by (simp add: scoreNarrative_total)

lemma rank0_scoreNarrative: "(scoreNarrative signals n)\<lparr>rank := Some 0\<rparr> = scoreNarrative signals n"
  by (simp add: scoreNarrative_def Let_def)

lemma set_assignRanks:
  "m \<in> set (assignRanks xs) \<Longrightarrow> \<exists>x \<in> set xs. \<exists>k. m = x\<lparr>rank := Some k\<rparr>"
  by (auto simp: assignRanks_def in_set_enumerate_eq)

lemma set_scoreNarratives:
  assumes "m \<in> set (scoreNarratives ns signals)"
  shows "\<exists>n \<in> set ns. \<exists>k. m = (scoreNarrative signals n)\<lparr>rank := Some k\<rparr>"
proof -
  from assms obtain x k
    where x: "x \<in> set (jsSort byTotalScoreDesc (map (scoreNarrative signals) ns))"
      and m: "m = x\<lparr>rank := Some k\<rparr>"
    unfolding scoreNarratives_def by (blast dest: set_assignRanks)
  from x have "x \<in> scoreNarrative signals ` set ns"
    by (simp add: set_jsSort)
  with m show ?thesis by blast
qed

lemma map_assignRanks_aux:
  "map f (map (\<lambda>(i, n). n\<lparr>rank := Some (i + 1)\<rparr>) (enumerate k xs)) = map f xs"
  if "\<And>n r. f (n\<lparr>rank := r\<rparr>) = f n"
  using that by (induction xs arbitrary: k) auto

lemma map_totalScore_assignRanks: "map totalScore (assignRanks xs) = map totalScore xs"
  unfolding assignRanks_def by (rule map_assignRanks_aux) simp

lemma map_unrank_assignRanks:
  "map (\<lambda>m. m\<lparr>rank := Some 0\<rparr>) (assignRanks xs) = map (\<lambda>m. m\<lparr>rank := Some 0\<rparr>) xs"
  unfolding assignRanks_def by (rule map_assignRanks_aux) simp

lemma rank_assignRanks_nth: "i < length xs \<Longrightarrow> rank (assignRanks xs ! i) = Some (i + 1)"
  by (simp add: assignRanks_def nth_enumerate_eq)

lemma Math_round_unit:
  assumes "0 \<le> c" "c \<le> 1"
  shows "Math_round (c * 10) \<le> 10"
proof -
  have "c * 10 + 1 / 2 < 11"
    using assms by simp
  then have "\<lfloor>c * 10 + 1 / 2\<rfloor> < 11"
    by (simp add: floor_less_iff)
  then show ?thesis
    by (simp add: Math_round_def)
qed

lemma computeScores_bounds:
  assumes "\<forall>c. confidence n = Some c \<longrightarrow> 0 \<le> c \<and> c \<le> 1"
  shows "crossSource (computeScores n signals) \<le> 30"
    and "evidence_score (computeScores n signals) \<le> 25"
    and "velocity_score (computeScores n signals) \<le> 20"
    and "stage_score (computeScores n signals) \<le> 15"
    and "confidence_score (computeScores n signals) \<le> 10"
    and "signalCount (computeScores n signals) \<le> 10"
proof -
  show "crossSource (computeScores n signals) \<le> 30" by (simp add: computeScores_def)
  show "evidence_score (computeScores n signals) \<le> 25" by (simp add: computeScores_def)
  show "velocity_score (computeScores n signals) \<le> 20" by (simp add: computeScores_def)
  show "stage_score (computeScores n signals) \<le> 15" by (simp add: computeScores_def)
  show "signalCount (computeScores n signals) \<le> 10" by (simp add: computeScores_def)
  have "0 \<le> confidenceOrDefault (confidence n) \<and> confidenceOrDefault (confidence n) \<le> 1"
    using assms by (cases "confidence n") (auto simp: confidenceOrDefault_def)
  then show "confidence_score (computeScores n signals) \<le> 10"
    by (simp add: computeScores_def Math_round_unit)
qed

lemma sum_scoreValues:
  "foldl (+) 0 (scoreValues sc) =
     crossSource sc + evidence_score sc + velocity_score sc + stage_score sc
       + confidence_score sc + signalCount sc"
  by (simp add: scoreValues_def)

text \<open>
  C1. Take any narrative in the output of \<open>scoreNarratives\<close> whose confidence, when it is
  present, lies between 0 and 1. Its \<open>scores\<close> object holds six sub-scores, each within
  its maximum (30, 25, 20, 15, 10, 10), its \<open>totalScore\<close> is exactly their sum, and the
  total is at most 110.
\<close>

theorem score_bounds:
  assumes "m \<in> set (scoreNarratives narratives signals)"
    and "\<forall>c. confidence m = Some c \<longrightarrow> 0 \<le> c \<and> c \<le> 1"
  shows "\<exists>sc t. scores m = Some sc \<and> totalScore m = Some t
           \<and> crossSource sc \<le> 30 \<and> evidence_score sc \<le> 25 \<and> velocity_score sc \<le> 20
           \<and> stage_score sc \<le> 15 \<and> confidence_score sc \<le> 10 \<and> signalCount sc \<le> 10
           \<and> scoreValues sc = [crossSource sc, evidence_score sc, velocity_score sc,
                                stage_score sc, confidence_score sc, signalCount sc]
           \<and> t = crossSource sc + evidence_score sc + velocity_score sc + stage_score sc
                 + confidence_score sc + signalCount sc
           \<and> t \<le> 110"
proof -
  from assms(1) obtain n k where m: "m = (scoreNarrative signals n)\<lparr>rank := Some k\<rparr>"
    by (blast dest: set_scoreNarratives)
  have conf: "confidence n = confidence m"
    by (simp add: m scoreNarrative_def Let_def)
  let ?sc = "computeScores n signals"
  let ?t = "foldl (+) 0 (scoreValues ?sc)"
  have c: "\<forall>c. confidence n = Some c \<longrightarrow> 0 \<le> c \<and> c \<le> 1"
    using assms(2) conf by simp
  note b = computeScores_bounds [OF c, of signals]
  have s: "scores m = Some ?sc"
    by (simp add: m scoreNarrative_scores)
  have t: "totalScore m = Some ?t"
    by (simp add: m scoreNarrative_total)
  have v: "scoreValues ?sc = [crossSource ?sc, evidence_score ?sc, velocity_score ?sc,
                               stage_score ?sc, confidence_score ?sc, signalCount ?sc]"
    by (simp add: scoreValues_def)
  have sum: "?t = crossSource ?sc + evidence_score ?sc + velocity_score ?sc + stage_score ?sc
                 + confidence_score ?sc + signalCount ?sc"
    by (rule sum_scoreValues)
  have le: "?t \<le> 110"
    unfolding sum using b by linarith
  show ?thesis
    using s t b v sum le by blast
qed

text \<open>The bounds at the sample narrative, scored against the sample signals.\<close>

theorem score_bounds_witness:
  "exampleScored \<in> set (scoreNarratives [exampleNarrative] exampleSignals)
   \<and> confidence exampleScored = Some (4 / 5)
   \<and> (\<exists>sc t. scores exampleScored = Some sc \<and> totalScore exampleScored = Some t
           \<and> crossSource sc \<le> 30 \<and> evidence_score sc \<le> 25 \<and> velocity_score sc \<le> 20
           \<and> stage_score sc \<le> 15 \<and> confidence_score sc \<le> 10 \<and> signalCount sc \<le> 10
           \<and> t = crossSource sc + evidence_score sc + velocity_score sc + stage_score sc
                 + confidence_score sc + signalCount sc
           \<and> t \<le> 110)"
proof -
  have h1: "exampleScored \<in> set (scoreNarratives [exampleNarrative] exampleSignals)"
    by code_simp
  have c: "confidence exampleScored = Some (4 / 5)"
    by (simp add: exampleScored_def exampleNarrative_def)
  then have h2: "\<forall>c. confidence exampleScored = Some c \<longrightarrow> 0 \<le> c \<and> c \<le> 1"
    by simp
  from score_bounds [OF h1 h2] h1 c show ?thesis by blast
qed

text \<open>
  C2, as the code has it. The output of \<open>scoreNarratives\<close> has the length of the input;
  the totals of adjacent elements never increase; narratives of equal total keep their
  input order (for every total, the output elements of that total, rank apart, are the
  scored inputs of that total, in input order); and the rank of the element at
  position \<open>i\<close> is \<open>i + 1\<close>, so the ranks are 1, 2, 3, ... whatever the totals.
\<close>

theorem scoreNarratives_sorted_stable_ranked:
  fixes narratives :: "'a narrative_scheme list" and signals :: "'b signal_scheme list"
  shows "length (scoreNarratives narratives signals) = length narratives
    \<and> (\<forall>i. Suc i < length (scoreNarratives narratives signals) \<longrightarrow>
          (\<exists>a b. totalScore (scoreNarratives narratives signals ! i) = Some a
               \<and> totalScore (scoreNarratives narratives signals ! Suc i) = Some b \<and> b \<le> a))
    \<and> (\<forall>t. filter (\<lambda>m. totalScore m = t)
              (map (\<lambda>m. m\<lparr>rank := Some 0\<rparr>) (scoreNarratives narratives signals))
            = filter (\<lambda>m. totalScore m = t) (map (scoreNarrative signals) narratives))
    \<and> (\<forall>i < length (scoreNarratives narratives signals).
          rank (scoreNarratives narratives signals ! i) = Some (i + 1))"
proof -
  define out where "out = scoreNarratives narratives signals"
  let ?scored = "map (scoreNarrative signals) narratives"
  let ?key = "\<lambda>a :: 'a narrative_scheme. - totalOf a"
  let ?sorted = "sort_key ?key ?scored"
  have out: "out = assignRanks ?sorted"
    unfolding out_def scoreNarratives_def by (simp only: jsSort_scored [OF scored_total])
  have len: "length out = length narratives"
    by (simp add: out assignRanks_def)
  have tot: "map totalScore out = map totalScore ?sorted"
    by (simp add: out map_totalScore_assignRanks)
  have some: "\<forall>m \<in> set ?sorted. totalScore m = Some (totalOf m)"
    by (auto simp: scoreNarrative_total totalOf_def)
  have srt: "sorted (map ?key ?sorted)"
    by (rule sorted_sort_key)
  have adjacent: "\<forall>i. Suc i < length out \<longrightarrow>
           (\<exists>a b. totalScore (out ! i) = Some a \<and> totalScore (out ! Suc i) = Some b \<and> b \<le> a)"
  proof (intro allI impI)
    fix i assume i: "Suc i < length out"
    then have i': "Suc i < length ?sorted"
      using len by simp
    have a: "totalScore (out ! i) = totalScore (?sorted ! i)"
      using tot i i' by (metis Suc_lessD nth_map)
    have b: "totalScore (out ! Suc i) = totalScore (?sorted ! Suc i)"
      using tot i i' by (metis nth_map)
    have "?key (?sorted ! i) \<le> ?key (?sorted ! Suc i)"
      using sorted_nth_mono [OF srt, of i "Suc i"] i' by simp
    then have le: "totalOf (?sorted ! Suc i) \<le> totalOf (?sorted ! i)"
      by simp
    have "?sorted ! i \<in> set ?sorted" "?sorted ! Suc i \<in> set ?sorted"
      using i' by (metis Suc_lessD nth_mem, metis nth_mem)
    with some have "totalScore (?sorted ! i) = Some (totalOf (?sorted ! i))"
      "totalScore (?sorted ! Suc i) = Some (totalOf (?sorted ! Suc i))"
      by blast+
    with a b le
    show "\<exists>a b. totalScore (out ! i) = Some a \<and> totalScore (out ! Suc i) = Some b \<and> b \<le> a"
      by simp
  qed
  have stable: "\<forall>t. filter (\<lambda>m. totalScore m = t) (map (\<lambda>m. m\<lparr>rank := Some 0\<rparr>) out)
             = filter (\<lambda>m. totalScore m = t) ?scored"
  proof
    fix t
    have un: "map (\<lambda>m. m\<lparr>rank := Some 0\<rparr>) out = map (\<lambda>m. m\<lparr>rank := Some 0\<rparr>) ?sorted"
      by (simp add: out map_unrank_assignRanks)
    have "\<forall>m \<in> set ?sorted. m\<lparr>rank := Some 0\<rparr> = m"
      by (auto simp: rank0_scoreNarrative)
    then have id: "map (\<lambda>m. m\<lparr>rank := Some 0\<rparr>) ?sorted = ?sorted"
      by (simp add: map_idI del: sort_key_simps set_sort)
    show "filter (\<lambda>m. totalScore m = t) (map (\<lambda>m. m\<lparr>rank := Some 0\<rparr>) out)
             = filter (\<lambda>m. totalScore m = t) ?scored"
    proof (cases t)
      case None
      have "filter (\<lambda>m. totalScore m = None) ?sorted = []"
        using some by (auto simp: filter_empty_conv)
      moreover have "filter (\<lambda>m. totalScore m = None) ?scored = []"
        by (auto simp: filter_empty_conv scoreNarrative_total)
      ultimately show ?thesis
        using None un id by simp
    next
      case (Some v)
      have e1: "filter (\<lambda>m. totalScore m = Some v) ?sorted = filter (\<lambda>m. ?key m = - v) ?sorted"
        by (rule filter_cong) (use some in auto)
      have e2: "filter (\<lambda>m. totalScore m = Some v) ?scored = filter (\<lambda>m. ?key m = - v) ?scored"
        by (rule filter_cong) (auto simp: scoreNarrative_total totalOf_def)
      have "filter (\<lambda>m. ?key m = - v) ?sorted = filter (\<lambda>m. ?key m = - v) ?scored"
        by (rule sort_key_stable)
      then show ?thesis
        using Some un id e1 e2 by simp
    qed
  qed
  have ranks: "\<forall>i < length out. rank (out ! i) = Some (i + 1)"
  proof (intro allI impI)
    fix i assume i: "i < length out"
    then have "i < length ?sorted"
      using len by simp
    then show "rank (out ! i) = Some (i + 1)"
      unfolding out by (rule rank_assignRanks_nth)
  qed
  from len adjacent stable ranks show ?thesis
    unfolding out_def by blast
qed

text \<open>The same at the two tied narratives: the first pair is in order and the first rank is 1.\<close>

theorem scoreNarratives_sorted_stable_ranked_witness:
  "Suc 0 < length (scoreNarratives tiedNarratives exampleSignals)
   \<and> (\<exists>a b. totalScore (scoreNarratives tiedNarratives exampleSignals ! 0) = Some a
          \<and> totalScore (scoreNarratives tiedNarratives exampleSignals ! Suc 0) = Some b \<and> b \<le> a)
   \<and> rank (scoreNarratives tiedNarratives exampleSignals ! 0) = Some 1
   \<and> rank (scoreNarratives tiedNarratives exampleSignals ! Suc 0) = Some 2"
proof -
  note t = scoreNarratives_sorted_stable_ranked [of tiedNarratives exampleSignals]
  have len: "length (scoreNarratives tiedNarratives exampleSignals) = 2"
    using t by (simp add: tiedNarratives_def)
  then have "Suc 0 < length (scoreNarratives tiedNarratives exampleSignals)"
    and "0 < length (scoreNarratives tiedNarratives exampleSignals)"
    by simp_all
  with t show ?thesis
    by (metis Suc_eq_plus1 add_2_eq_Suc' add.left_neutral)
qed

text \<open>
  C2 as stated fails: the two tied narratives have equal totals, and they do not
  receive the same rank (the ranks are 1 and 2).
\<close>

theorem equal_totals_same_rank_counterexample:
  "totalScore (scoreNarratives tiedNarratives exampleSignals ! 0)
     = totalScore (scoreNarratives tiedNarratives exampleSignals ! 1)
   \<and> rank (scoreNarratives tiedNarratives exampleSignals ! 0) = Some 1
   \<and> rank (scoreNarratives tiedNarratives exampleSignals ! 1) = Some 2"
  by code_simp

text \<open>
  C3. One narrative with sources social and onchain, three evidence points, velocity
  rising, stage emerging and confidence 0.8, scored against five signals of which
  exactly four share a topic with it up to letter case, gets the sub-scores
  16, 24, 20, 15, 8 and 2, and the total 85.
\<close>

theorem scenario_scores:
  assumes "sources n = Some [''social'', ''onchain'']"
    and "\<exists>e. evidence n = Some e \<and> length e = 3"
    and "velocity n = Some ''rising''"
    and "stage n = Some ''emerging''"
    and "confidence n = Some (4 / 5)"
    and "length signals = 5"
    and "length (filter (spec_sharesTopic n) signals) = 4"
  shows "map (\<lambda>m. (scores m, totalScore m)) (scoreNarratives [n] signals) =
           [(Some \<lparr> crossSource = 16, evidence_score = 24, velocity_score = 20,
                    stage_score = 15, confidence_score = 8, signalCount = 2 \<rparr>,
             Some 85)]"
proof -
  from assms(2) obtain e where e: "evidence n = Some e" "length e = 3"
    by blast
  have r: "Math_round (4 / 5 * 10) = 8"
    by code_simp
  have sc: "computeScores n signals =
      \<lparr> crossSource = 16, evidence_score = 24, velocity_score = 20,
        stage_score = 15, confidence_score = 8, signalCount = 2 \<rparr>"
    using assms(1,3,4,5,7) e r
    by (simp add: computeScores_def matchingSignals_spec orEmpty_def confidenceOrDefault_def)
  show ?thesis
    by (simp add: scoreNarratives_def jsSort_def assignRanks_def
        scoreNarrative_def Let_def sc scoreValues_def)
qed

text \<open>The scenario at the sample narrative and the sample signals.\<close>

theorem scenario_scores_witness:
  "sources exampleNarrative = Some [''social'', ''onchain'']
   \<and> (\<exists>e. evidence exampleNarrative = Some e \<and> length e = 3)
   \<and> velocity exampleNarrative = Some ''rising''
   \<and> stage exampleNarrative = Some ''emerging''
   \<and> confidence exampleNarrative = Some (4 / 5)
   \<and> length exampleSignals = 5
   \<and> length (filter (spec_sharesTopic exampleNarrative) exampleSignals) = 4
   \<and> map (\<lambda>m. (scores m, totalScore m)) (scoreNarratives [exampleNarrative] exampleSignals) =
           [(Some \<lparr> crossSource = 16, evidence_score = 24, velocity_score = 20,
                    stage_score = 15, confidence_score = 8, signalCount = 2 \<rparr>,
             Some 85)]"
proof -
  have h1: "sources exampleNarrative = Some [''social'', ''onchain'']"
    by (simp add: exampleNarrative_def)
  have h2: "\<exists>e. evidence exampleNarrative = Some e \<and> length e = 3"
    by (simp add: exampleNarrative_def)
  have h3: "velocity exampleNarrative = Some ''rising''"
    by (simp add: exampleNarrative_def)
  have h4: "stage exampleNarrative = Some ''emerging''"
    by (simp add: exampleNarrative_def)
  have h5: "confidence exampleNarrative = Some (4 / 5)"
    by (simp add: exampleNarrative_def)
  have h6: "length exampleSignals = 5"
    by (simp add: exampleSignals_def)
  have h7: "length (filter (spec_sharesTopic exampleNarrative) exampleSignals) = 4"
    unfolding matchingSignals_spec [symmetric] by code_simp
  from scenario_scores [OF h1 h2 h3 h4 h5 h6 h7] h1 h2 h3 h4 h5 h6 h7
  show ?thesis by blast
qed

text \<open>
  C4. A confidence field that is present and 0 lies in [0,1], and \<open>round(0 * 10)\<close> is 0;
  the code takes the default for it and gives the confidence sub-score 5.
\<close>

theorem zero_confidence_scores_five:
  "map (\<lambda>m. map_option confidence_score (scores m))
     (scoreNarratives [exampleNarrative\<lparr>confidence := Some 0\<rparr>] exampleSignals) = [Some 5]
   \<and> Math_round (0 * 10) = 0"
  by code_simp

lemma erase_rank_update: "eraseEngineFields (n\<lparr>rank := r\<rparr>) = eraseEngineFields n"
  by (simp add: eraseEngineFields_def)

lemma erase_scoreNarrative: "eraseEngineFields (scoreNarrative signals n) = eraseEngineFields n"
  by (simp add: eraseEngineFields_def scoreNarrative_def Let_def)

lemma map_erase_assignRanks:
  "map eraseEngineFields (assignRanks xs) = map eraseEngineFields xs"
  unfolding assignRanks_def by (rule map_assignRanks_aux) (rule erase_rank_update)

text \<open>
  C10. Blank out \<open>scores\<close>, \<open>totalScore\<close>, \<open>matchingSignalCount\<close> and \<open>rank\<close> on both
  sides: what is left of the output of \<open>scoreNarratives\<close> is a permutation of what is left
  of the input. So every output element is an input narrative with all its other fields
  unchanged, and those four fields are the only ones written.
\<close>

theorem scoreNarratives_frame:
  "mset (map eraseEngineFields (scoreNarratives narratives signals))
     = mset (map eraseEngineFields narratives)"
proof -
  let ?scored = "map (scoreNarrative signals) narratives"
  have "mset (map eraseEngineFields (scoreNarratives narratives signals))
          = mset (map eraseEngineFields (jsSort byTotalScoreDesc ?scored))"
    by (simp add: scoreNarratives_def map_erase_assignRanks)
  also have "\<dots> = image_mset eraseEngineFields (mset (jsSort byTotalScoreDesc ?scored))"
    by simp
  also have "\<dots> = image_mset eraseEngineFields (mset ?scored)"
    by (simp only: mset_jsSort)
  also have "\<dots> = mset (map eraseEngineFields narratives)"
    by (simp add: erase_scoreNarrative image_mset.compositionality comp_def)
  finally show ?thesis .
qed


section \<open>Properties of the normalizer\<close>

lemma idKey_spec:
  assumes "idKey raw = Inr k"
  shows "k = (case spec_firstAvailable raw of Some v \<Rightarrow> v | None \<Rightarrow> JStr [])"
  using assms
  by (cases "getProp raw ''text''")
     (auto simp: idKey_def spec_firstAvailable_def optSubstring_def jsOr_def truthy_def
           split: if_splits)

lemma generateId_parts:
  assumes "generateId raw = Inr i"
  shows "\<exists>str. joinArray ''|''
                  [jsOr (getProp raw ''source'') (JStr []),
                   jsOr (getProp raw ''subSource'') (JStr []),
                   (case spec_firstAvailable raw of Some v \<Rightarrow> v | None \<Rightarrow> JStr [])] = Inr str
             \<and> i = ''sig_'' @ toStringRadix 36 \<bar>foldl hashStep 0 str\<bar>"
proof -
  from assms obtain k where k: "idKey raw = Inr k"
    by (auto simp: generateId_def split: if_splits sum.splits)
  from assms k obtain str
    where "joinArray ''|'' [jsOr (getProp raw ''source'') (JStr []),
                            jsOr (getProp raw ''subSource'') (JStr []), k] = Inr str"
      and "i = ''sig_'' @ toStringRadix 36 \<bar>foldl hashStep 0 str\<bar>"
    by (auto simp: generateId_def Let_def split: if_splits sum.splits)
  then show ?thesis
    using idKey_spec [OF k] by simp
qed

lemma normalizeSignal_id:
  assumes "normalizeSignal now1 now2 raw = Inr s"
  shows "generateId raw = Inr (sig_id s)"
  using assms by (auto simp: normalizeSignal_def split: sum.splits)

text \<open>
  C5. Two raw records that agree on source, on subSource and on the first available of
  url, name and the first 50 characters of text get the same id, whatever the clock
  reads when each of them is normalized and whatever their other fields hold.
\<close>

theorem fingerprint_stable:
  assumes "getProp r1 ''source'' = getProp r2 ''source''"
    and "getProp r1 ''subSource'' = getProp r2 ''subSource''"
    and "spec_firstAvailable r1 = spec_firstAvailable r2"
    and "normalizeSignal now1 now2 r1 = Inr s1"
    and "normalizeSignal now3 now4 r2 = Inr s2"
  shows "sig_id s1 = sig_id s2"
proof -
  have "generateId r1 = Inr (sig_id s1)" "generateId r2 = Inr (sig_id s2)"
    using assms(4,5) by (simp_all add: normalizeSignal_id)
  from generateId_parts [OF this(1)] generateId_parts [OF this(2)] show ?thesis
    using assms(1-3) by auto
qed

text \<open>Values that convert to strings.\<close>

lemma converts_toStr: "spec_convertsToString v \<Longrightarrow> \<exists>str. toStr v = Inr str"
  by (simp add: spec_convertsToString_def split: sum.splits)

lemma converts_primitive [simp]:
  "spec_convertsToString JUndefined" "spec_convertsToString JNull"
  "spec_convertsToString (JBool b)" "spec_convertsToString (JNum n)"
  "spec_convertsToString (JStr s)"
  by (simp_all add: spec_convertsToString_def)

lemma converts_jsOr:
  "spec_convertsToString a \<Longrightarrow> spec_convertsToString b \<Longrightarrow> spec_convertsToString (jsOr a b)"
  by (simp add: jsOr_def)

lemma joinItems_total:
  assumes "\<forall>x \<in> set xs. spec_convertsToString x"
  shows "\<exists>strs. joinItems xs = Inr strs"
  using assms
proof (induction xs)
  case Nil
  then show ?case by simp
next
  case (Cons x xs)
  then obtain strs where strs: "joinItems xs = Inr strs"
    by auto
  from Cons.prems obtain str where "toStr x = Inr str"
    using converts_toStr by auto
  with strs show ?case
    by simp
qed

lemma idKey_total:
  assumes "spec_stringOrMissing (getProp raw ''text'')"
    and "spec_convertsToString (getProp raw ''url'')"
    and "spec_convertsToString (getProp raw ''name'')"
  shows "\<exists>k. idKey raw = Inr k \<and> spec_convertsToString k"
  using assms
  by (cases "getProp raw ''text''")
     (auto simp: idKey_def optSubstring_def spec_stringOrMissing_def jsOr_def)

lemma generateId_total:
  assumes "\<not> nullish raw" and "spec_stringOrMissing (getProp raw ''text'')"
    and "spec_convertsToString (getProp raw ''source'')"
    and "spec_convertsToString (getProp raw ''subSource'')"
    and "spec_convertsToString (getProp raw ''url'')"
    and "spec_convertsToString (getProp raw ''name'')"
  shows "\<exists>i. generateId raw = Inr i"
proof -
  obtain k where k: "idKey raw = Inr k" "spec_convertsToString k"
    using idKey_total [OF assms(2,5,6)] by blast
  have "\<forall>x \<in> set [jsOr (getProp raw ''source'') (JStr []),
                    jsOr (getProp raw ''subSource'') (JStr []), k]. spec_convertsToString x"
    using assms(3,4) k(2) by (simp add: converts_jsOr)
  then obtain strs where "joinItems [jsOr (getProp raw ''source'') (JStr []),
                    jsOr (getProp raw ''subSource'') (JStr []), k] = Inr strs"
    using joinItems_total by blast
  then show ?thesis
    using assms(1) k(1) by (simp add: generateId_def joinArray_def Let_def)
qed

lemma extractTitle_total:
  assumes "\<not> nullish raw" and "spec_stringOrMissing (getProp raw ''text'')"
    and "spec_convertsToString (getProp raw ''ticker'')"
  shows "\<exists>t. extractTitle raw = Inr t"
proof -
  obtain str where "toStr (getProp raw ''ticker'') = Inr str"
    using converts_toStr [OF assms(3)] by blast
  with assms(1,2) show ?thesis
    by (cases "getProp raw ''text''")
       (auto simp: extractTitle_def spec_stringOrMissing_def truthy_def)
qed

lemma classifySignalType_total:
  assumes "\<not> nullish raw" and "spec_stringArrayOrMissing (getProp raw ''subSource'')"
  shows "\<exists>t. classifySignalType raw = Inr t"
  using assms
  by (cases "getProp raw ''subSource''")
     (auto simp: classifySignalType_def optIncludes_def spec_stringArrayOrMissing_def truthy_def)

lemma mapThrowing_total:
  assumes "\<forall>x \<in> set xs. \<exists>y. f x = Inr y"
  shows "\<exists>ys. mapThrowing f xs = Inr ys"
  using assms
proof (induction xs)
  case Nil
  then show ?case by simp
next
  case (Cons x xs)
  then obtain y ys where "f x = Inr y" "mapThrowing f xs = Inr ys"
    by auto
  then show ?case by simp
qed

lemma dedupeTopics_total:
  assumes "spec_topicsConvert v"
  shows "\<exists>ts. dedupeTopics v = Inr ts"
proof (cases v)
  case (JArr xs)
  let ?f = "\<lambda>t. case toStr t of Inl e \<Rightarrow> Inl e
                | Inr str \<Rightarrow> Inr (replaceWhiteSpace (trim (toLowerCase str)))"
  from JArr assms have c: "\<forall>x \<in> set xs. spec_convertsToString x"
    by (simp add: spec_topicsConvert_def list_all_iff)
  have "\<forall>x \<in> set xs. \<exists>y. ?f x = Inr y"
  proof
    fix x assume "x \<in> set xs"
    with c obtain str where "toStr x = Inr str"
      using converts_toStr by blast
    then show "\<exists>y. ?f x = Inr y"
      by simp
  qed
  then obtain ys where "mapThrowing ?f xs = Inr ys"
    using mapThrowing_total [of xs ?f] by blast
  with JArr show ?thesis
    by (simp add: dedupeTopics_def)
qed (simp_all add: dedupeTopics_def)

lemma dedupeTopics_missing:
  assumes "\<not> truthy v"
  shows "dedupeTopics (jsOr v (JArr [])) = Inr []"
  using assms by (simp add: jsOr_def dedupeTopics_def uniqueInOrder_def)

lemma topicsConvert_jsOr:
  "spec_topicsConvert v \<Longrightarrow> spec_topicsConvert (jsOr v (JArr []))"
  by (simp add: jsOr_def spec_topicsConvert_def)

lemma normalizeSignal_returns:
  assumes "spec_wellFormedRaw raw"
  shows "\<exists>s. normalizeSignal now1 now2 raw = Inr s"
proof -
  from assms have n: "\<not> nullish raw" and t: "spec_stringOrMissing (getProp raw ''text'')"
    and s: "spec_stringArrayOrMissing (getProp raw ''subSource'')"
    and c: "spec_convertsToString (getProp raw ''source'')"
      "spec_convertsToString (getProp raw ''subSource'')"
      "spec_convertsToString (getProp raw ''url'')"
      "spec_convertsToString (getProp raw ''name'')"
    and tk: "spec_convertsToString (getProp raw ''ticker'')"
    and tp: "spec_topicsConvert (getProp raw ''topics'')"
    by (simp_all add: spec_wellFormedRaw_def)
  obtain i where i: "generateId raw = Inr i"
    using generateId_total [OF n t c] by blast
  have "\<exists>ttl. orElse (jsOr (getProp raw ''name'') (getProp raw ''title'')) (extractTitle raw) = Inr ttl"
    using extractTitle_total [OF n t tk] by (simp add: orElse_def)
  then obtain ttl
    where ttl: "orElse (jsOr (getProp raw ''name'') (getProp raw ''title'')) (extractTitle raw) = Inr ttl"
    by blast
  obtain tps where tps: "dedupeTopics (jsOr (getProp raw ''topics'') (JArr [])) = Inr tps"
    using dedupeTopics_total [OF topicsConvert_jsOr [OF tp]] by blast
  have "\<exists>ty. orElse (getProp raw ''signalType'') (classifySignalType raw) = Inr ty"
    using classifySignalType_total [OF n s] by (simp add: orElse_def)
  then obtain ty where ty: "orElse (getProp raw ''signalType'') (classifySignalType raw) = Inr ty"
    by blast
  show ?thesis
    by (simp add: normalizeSignal_def i ttl tps ty)
qed

lemma classify_general:
  assumes "\<not> nullish raw" and "spec_stringArrayOrMissing (getProp raw ''subSource'')"
    and "\<not> truthy (getProp raw ''source'')" and "\<not> truthy (getProp raw ''subSource'')"
  shows "classifySignalType raw = Inr (JStr ''general'')"
  using assms
  by (cases "getProp raw ''subSource''")
     (auto simp: classifySignalType_def optIncludes_def spec_stringArrayOrMissing_def truthy_def)

lemma extractTitle_untitled:
  assumes "\<not> nullish raw" and "\<not> truthy (getProp raw ''name'')"
    and "\<not> truthy (getProp raw ''text'')" and "\<not> truthy (getProp raw ''ticker'')"
  shows "extractTitle raw = Inr (JStr ''Untitled Signal'')"
  using assms by (simp add: extractTitle_def)

text \<open>
  C7, as the code has it. For every raw value other than \<open>null\<close> whose text, when
  present, is a string, whose subSource, when present, is a string or an array, and whose
  printed fields (source, subSource, url, name, ticker and each topic) convert to
  strings, \<open>normalizeSignal\<close> returns a signal and does not throw, and a field that is
  missing (or empty, or otherwise falsy) gets its default: \<open>unknown\<close>,
  \<open>Untitled Signal\<close>, the empty string, \<open>null\<close>, the clock reading, no topics,
  \<open>neutral\<close>, \<open>general\<close>. A value fails to convert to a string only when it is, or
  holds inside an array, an object with a property \<open>toString\<close> of its own.
\<close>

theorem normalizeSignal_total_defaults:
  assumes "spec_wellFormedRaw raw"
  shows "\<exists>s. normalizeSignal now1 now2 raw = Inr s
    \<and> (\<not> truthy (getProp raw ''source'') \<longrightarrow> source s = JStr ''unknown'')
    \<and> (\<not> truthy (getProp raw ''subSource'') \<and> \<not> truthy (getProp raw ''sub_source'')
         \<longrightarrow> subSource s = JStr ''unknown'')
    \<and> (\<not> truthy (getProp raw ''name'') \<and> \<not> truthy (getProp raw ''title'')
         \<and> \<not> truthy (getProp raw ''text'') \<and> \<not> truthy (getProp raw ''ticker'')
         \<longrightarrow> title s = JStr ''Untitled Signal'')
    \<and> (\<not> truthy (getProp raw ''text'') \<and> \<not> truthy (getProp raw ''description'')
         \<longrightarrow> sig_text s = JStr [])
    \<and> (\<not> truthy (getProp raw ''url'') \<and> \<not> truthy (getProp raw ''news_url'')
         \<and> \<not> truthy (getProp raw ''html_url'') \<longrightarrow> url s = JNull)
    \<and> (\<not> truthy (getProp raw ''date'') \<and> \<not> truthy (getProp raw ''createdAt'')
         \<and> \<not> truthy (getProp raw ''collectedAt'') \<longrightarrow> date s = JStr now1)
    \<and> (\<not> truthy (getProp raw ''collectedAt'') \<longrightarrow> collectedAt s = JStr now2)
    \<and> (\<not> truthy (getProp raw ''topics'') \<longrightarrow> topics s = [])
    \<and> (\<not> truthy (getProp raw ''sentiment'') \<longrightarrow> sentiment s = JStr ''neutral'')
    \<and> (\<not> truthy (getProp raw ''signalType'') \<and> \<not> truthy (getProp raw ''source'')
         \<and> \<not> truthy (getProp raw ''subSource'') \<longrightarrow> signalType s = JStr ''general'')
    \<and> (\<not> truthy (getProp raw ''engagement'') \<longrightarrow> engagement s = JNull)
    \<and> (\<not> truthy (getProp raw ''stars'') \<longrightarrow> stars s = JNull)
    \<and> (\<not> truthy (getProp raw ''marketCap'') \<longrightarrow> marketCap s = JNull)
    \<and> (\<not> truthy (getProp raw ''username'') \<longrightarrow> username s = JNull)
    \<and> (\<not> truthy (getProp raw ''ticker'') \<longrightarrow> ticker s = JNull)
    \<and> (\<not> truthy (getProp raw ''address'') \<longrightarrow> address s = JNull)
    \<and> (\<not> truthy (getProp raw ''keyInsight'') \<longrightarrow> keyInsight s = JNull)
    \<and> (\<not> truthy (getProp raw ''dataPoint'') \<longrightarrow> dataPoint s = JNull)"
proof -
  from assms have n: "\<not> nullish raw"
    and tx: "spec_stringOrMissing (getProp raw ''text'')"
    and sub: "spec_stringArrayOrMissing (getProp raw ''subSource'')"
    and c: "spec_convertsToString (getProp raw ''source'')"
      "spec_convertsToString (getProp raw ''subSource'')"
      "spec_convertsToString (getProp raw ''url'')"
      "spec_convertsToString (getProp raw ''name'')"
    and tk: "spec_convertsToString (getProp raw ''ticker'')"
    and tp: "spec_topicsConvert (getProp raw ''topics'')"
    by (simp_all add: spec_wellFormedRaw_def)
  obtain i where i: "generateId raw = Inr i"
    using generateId_total [OF n tx c] by blast
  have "\<exists>ttl. orElse (jsOr (getProp raw ''name'') (getProp raw ''title'')) (extractTitle raw) = Inr ttl"
    using extractTitle_total [OF n tx tk] by (simp add: orElse_def)
  then obtain ttl
    where ttl: "orElse (jsOr (getProp raw ''name'') (getProp raw ''title'')) (extractTitle raw) = Inr ttl"
    by blast
  obtain tps where tps: "dedupeTopics (jsOr (getProp raw ''topics'') (JArr [])) = Inr tps"
    using dedupeTopics_total [OF topicsConvert_jsOr [OF tp]] by blast
  have "\<exists>ty. orElse (getProp raw ''signalType'') (classifySignalType raw) = Inr ty"
    using classifySignalType_total [OF n sub] by (simp add: orElse_def)
  then obtain ty where ty: "orElse (getProp raw ''signalType'') (classifySignalType raw) = Inr ty"
    by blast
  define s where "s = \<lparr> sig_id = i,
                source = jsOr (getProp raw ''source'') (JStr ''unknown''),
                subSource = jsOr (jsOr (getProp raw ''subSource'') (getProp raw ''sub_source''))
                              (JStr ''unknown''),
                title = ttl,
                sig_text = jsOr (jsOr (getProp raw ''text'') (getProp raw ''description'')) (JStr []),
                url = jsOr (jsOr (jsOr (getProp raw ''url'') (getProp raw ''news_url''))
                              (getProp raw ''html_url'')) JNull,
                date = jsOr (jsOr (jsOr (getProp raw ''date'') (getProp raw ''createdAt''))
                              (getProp raw ''collectedAt'')) (JStr now1),
                collectedAt = jsOr (getProp raw ''collectedAt'') (JStr now2),
                topics = tps,
                sentiment = jsOr (getProp raw ''sentiment'') (JStr ''neutral''),
                signalType = ty,
                engagement = jsOr (getProp raw ''engagement'') JNull,
                stars = jsOr (getProp raw ''stars'') JNull,
                marketCap = jsOr (getProp raw ''marketCap'') JNull,
                username = jsOr (getProp raw ''username'') JNull,
                ticker = jsOr (getProp raw ''ticker'') JNull,
                address = jsOr (getProp raw ''address'') JNull,
                keyInsight = jsOr (getProp raw ''keyInsight'') JNull,
                dataPoint = jsOr (getProp raw ''dataPoint'') JNull \<rparr>"
  have s: "normalizeSignal now1 now2 raw = Inr s"
    by (simp add: normalizeSignal_def i ttl tps ty s_def)
  have f_title: "title s = ttl" and f_type: "signalType s = ty"
    and f_topics: "topics s = tps"
    by (simp_all add: s_def)
  have t1: "title s = JStr ''Untitled Signal''"
    if "\<not> truthy (getProp raw ''name'')" "\<not> truthy (getProp raw ''title'')"
       "\<not> truthy (getProp raw ''text'')" "\<not> truthy (getProp raw ''ticker'')"
    using that ttl extractTitle_untitled [OF n that(1,3,4)] by (simp add: f_title orElse_def jsOr_def)
  have t2: "signalType s = JStr ''general''"
    if "\<not> truthy (getProp raw ''signalType'')" "\<not> truthy (getProp raw ''source'')"
       "\<not> truthy (getProp raw ''subSource'')"
    using that ty classify_general [OF n sub that(2,3)] by (simp add: f_type orElse_def)
  have t3: "topics s = []" if "\<not> truthy (getProp raw ''topics'')"
    using that tps dedupeTopics_missing [OF that] by (simp add: f_topics)
  have f: "source s = jsOr (getProp raw ''source'') (JStr ''unknown'')"
    "subSource s = jsOr (jsOr (getProp raw ''subSource'') (getProp raw ''sub_source'')) (JStr ''unknown'')"
    "sig_text s = jsOr (jsOr (getProp raw ''text'') (getProp raw ''description'')) (JStr [])"
    "url s = jsOr (jsOr (jsOr (getProp raw ''url'') (getProp raw ''news_url'')) (getProp raw ''html_url'')) JNull"
    "date s = jsOr (jsOr (jsOr (getProp raw ''date'') (getProp raw ''createdAt'')) (getProp raw ''collectedAt'')) (JStr now1)"
    "collectedAt s = jsOr (getProp raw ''collectedAt'') (JStr now2)"
    "sentiment s = jsOr (getProp raw ''sentiment'') (JStr ''neutral'')"
    "engagement s = jsOr (getProp raw ''engagement'') JNull"
    "stars s = jsOr (getProp raw ''stars'') JNull"
    "marketCap s = jsOr (getProp raw ''marketCap'') JNull"
    "username s = jsOr (getProp raw ''username'') JNull"
    "ticker s = jsOr (getProp raw ''ticker'') JNull"
    "address s = jsOr (getProp raw ''address'') JNull"
    "keyInsight s = jsOr (getProp raw ''keyInsight'') JNull"
    "dataPoint s = jsOr (getProp raw ''dataPoint'') JNull"
    by (simp_all add: s_def)
  show ?thesis
  proof (intro exI [of _ s] conjI)
    show "normalizeSignal now1 now2 raw = Inr s"
      by (rule s)
    show "\<not> truthy (getProp raw ''name'') \<and> \<not> truthy (getProp raw ''title'')
         \<and> \<not> truthy (getProp raw ''text'') \<and> \<not> truthy (getProp raw ''ticker'')
         \<longrightarrow> title s = JStr ''Untitled Signal''"
      using t1 by blast
    show "\<not> truthy (getProp raw ''signalType'') \<and> \<not> truthy (getProp raw ''source'')
         \<and> \<not> truthy (getProp raw ''subSource'') \<longrightarrow> signalType s = JStr ''general''"
      using t2 by blast
    show "\<not> truthy (getProp raw ''topics'') \<longrightarrow> topics s = []"
      using t3 by blast
  qed (simp_all add: f jsOr_def)
qed

lemma getProp_asRaw:
  "getProp (asRaw s) ''source'' = source s"
  "getProp (asRaw s) ''subSource'' = subSource s"
  "getProp (asRaw s) ''url'' = url s"
  "getProp (asRaw s) ''name'' = JUndefined"
  "getProp (asRaw s) ''title'' = title s"
  "getProp (asRaw s) ''text'' = sig_text s"
  "getProp (asRaw s) ''signalType'' = signalType s"
  "getProp (asRaw s) ''topics'' = JArr (map JStr (topics s))"
  "getProp (asRaw s) ''date'' = date s"
  "getProp (asRaw s) ''createdAt'' = JUndefined"
  "getProp (asRaw s) ''collectedAt'' = collectedAt s"
  by (simp_all add: asRaw_def)

lemma not_nullish_asRaw: "\<not> nullish (asRaw s)"
  by (simp add: asRaw_def nullish_def)

lemma normalizeSignal_fields:
  assumes "normalizeSignal now1 now2 raw = Inr s"
  shows "source s = jsOr (getProp raw ''source'') (JStr ''unknown'')"
    and "subSource s = jsOr (jsOr (getProp raw ''subSource'') (getProp raw ''sub_source'')) (JStr ''unknown'')"
    and "url s = jsOr (jsOr (jsOr (getProp raw ''url'') (getProp raw ''news_url'')) (getProp raw ''html_url'')) JNull"
    and "sig_text s = jsOr (jsOr (getProp raw ''text'') (getProp raw ''description'')) (JStr [])"
    and "orElse (jsOr (getProp raw ''name'') (getProp raw ''title'')) (extractTitle raw) = Inr (title s)"
    and "orElse (getProp raw ''signalType'') (classifySignalType raw) = Inr (signalType s)"
    and "date s = jsOr (jsOr (jsOr (getProp raw ''date'') (getProp raw ''createdAt''))
                    (getProp raw ''collectedAt'')) (JStr now1)"
    and "collectedAt s = jsOr (getProp raw ''collectedAt'') (JStr now2)"
proof -
  from assms obtain i ttl tps ty where g: "generateId raw = Inr i"
    and ttl: "orElse (jsOr (getProp raw ''name'') (getProp raw ''title'')) (extractTitle raw) = Inr ttl"
    and tps: "dedupeTopics (jsOr (getProp raw ''topics'') (JArr [])) = Inr tps"
    and ty: "orElse (getProp raw ''signalType'') (classifySignalType raw) = Inr ty"
    by (simp add: normalizeSignal_def split: sum.splits)
  from assms have s: "Inr s = normalizeSignal now1 now2 raw"
    by simp
  have *: "title s = ttl" "signalType s = ty"
    "source s = jsOr (getProp raw ''source'') (JStr ''unknown'')"
    "subSource s = jsOr (jsOr (getProp raw ''subSource'') (getProp raw ''sub_source'')) (JStr ''unknown'')"
    "url s = jsOr (jsOr (jsOr (getProp raw ''url'') (getProp raw ''news_url'')) (getProp raw ''html_url'')) JNull"
    "sig_text s = jsOr (jsOr (getProp raw ''text'') (getProp raw ''description'')) (JStr [])"
    "date s = jsOr (jsOr (jsOr (getProp raw ''date'') (getProp raw ''createdAt''))
                    (getProp raw ''collectedAt'')) (JStr now1)"
    "collectedAt s = jsOr (getProp raw ''collectedAt'') (JStr now2)"
    using s unfolding normalizeSignal_def g ttl tps ty by simp_all
  from * ttl ty
  show "source s = jsOr (getProp raw ''source'') (JStr ''unknown'')"
    and "subSource s = jsOr (jsOr (getProp raw ''subSource'') (getProp raw ''sub_source'')) (JStr ''unknown'')"
    and "url s = jsOr (jsOr (jsOr (getProp raw ''url'') (getProp raw ''news_url'')) (getProp raw ''html_url'')) JNull"
    and "sig_text s = jsOr (jsOr (getProp raw ''text'') (getProp raw ''description'')) (JStr [])"
    and "orElse (jsOr (getProp raw ''name'') (getProp raw ''title'')) (extractTitle raw) = Inr (title s)"
    and "orElse (getProp raw ''signalType'') (classifySignalType raw) = Inr (signalType s)"
    and "date s = jsOr (jsOr (jsOr (getProp raw ''date'') (getProp raw ''createdAt''))
                    (getProp raw ''collectedAt'')) (JStr now1)"
    and "collectedAt s = jsOr (getProp raw ''collectedAt'') (JStr now2)"
    by simp_all
qed

text \<open>A title that came out empty was cut from a text that is a string.\<close>

lemma extractTitle_falsy:
  assumes "extractTitle raw = Inr t" and "\<not> truthy t"
  shows "truthy (getProp raw ''text'') \<and> (\<exists>str. getProp raw ''text'' = JStr str)"
proof -
  have "truthy (JStr (CHR ''$'' # str))" for str
    by (simp add: truthy_def)
  with assms show ?thesis
    by (auto simp: extractTitle_def truthy_def split: if_splits jsval.splits sum.splits)
qed

lemma empty_title_text:
  assumes "normalizeSignal now1 now2 raw = Inr s" and "\<not> truthy (title s)"
  shows "\<exists>str. sig_text s = JStr str \<and> str \<noteq> []"
proof -
  note f = normalizeSignal_fields [OF assms(1)]
  from f(5) assms(2) have e: "extractTitle raw = Inr (title s)"
    by (auto simp: orElse_def split: if_splits)
  from extractTitle_falsy [OF e assms(2)] show ?thesis
    by (auto simp: f(4) jsOr_def truthy_def)
qed

lemma classify_truthy:
  assumes "classifySignalType raw = Inr t"
  shows "truthy t"
proof -
  from assms have "\<exists>str. t = JStr str \<and> str \<noteq> []"
    by (auto simp: classifySignalType_def split: if_splits sum.splits)
  then show ?thesis
    by (auto simp: truthy_def)
qed

lemma signalType_truthy:
  assumes "normalizeSignal now1 now2 raw = Inr s"
  shows "truthy (signalType s)"
proof -
  note f = normalizeSignal_fields [OF assms(1)]
  show ?thesis
  proof (cases "truthy (getProp raw ''signalType'')")
    case True
    with f(6) show ?thesis by (simp add: orElse_def)
  next
    case False
    with f(6) have "classifySignalType raw = Inr (signalType s)"
      by (simp add: orElse_def)
    then show ?thesis
      by (rule classify_truthy)
  qed
qed

text \<open>The topics of a signal are strings, and normalize without a throw.\<close>

lemma dedupeTopics_strings: "\<exists>ts. dedupeTopics (jsOr (JArr (map JStr xs)) (JArr [])) = Inr ts"
proof -
  have "spec_topicsConvert (JArr (map JStr xs))"
    by (simp add: spec_topicsConvert_def list_all_iff)
  then show ?thesis
    using dedupeTopics_total topicsConvert_jsOr by blast
qed

text \<open>The key of the id, for a record whose key is one that a signal keeps.\<close>

lemma keptKey_idKey:
  assumes "normalizeSignal now1 now2 raw = Inr s" and "spec_keptKey raw"
  shows "\<exists>k. idKey raw = Inr k \<and> idKey (asRaw s) = Inr k"
proof -
  note f = normalizeSignal_fields [OF assms(1)]
  from normalizeSignal_id [OF assms(1)] obtain k where k: "idKey raw = Inr k"
    by (auto simp: generateId_def split: if_splits sum.splits)
  show ?thesis
  proof (cases "truthy (getProp raw ''url'')")
    case True
    then have "url s = getProp raw ''url''"
      by (simp add: f jsOr_def)
    with True k show ?thesis
      by (simp add: idKey_def getProp_asRaw)
  next
    case False
    with assms(2) have nm: "\<not> truthy (getProp raw ''name'')"
      and nu: "\<not> truthy (getProp raw ''news_url'')" "\<not> truthy (getProp raw ''html_url'')"
      and td: "truthy (getProp raw ''text'') \<or> \<not> truthy (getProp raw ''description'')"
      by (auto simp: spec_keptKey_def)
    have u: "url s = JNull"
      using False nu by (simp add: f jsOr_def)
    from k False nm obtain p where p: "optSubstring (getProp raw ''text'') 50 = Inr p"
      and kp: "k = jsOr p (JStr [])"
      by (auto simp: idKey_def split: sum.splits)
    have "optSubstring (sig_text s) 50 = Inr p' \<and> jsOr p' (JStr []) = k" if "p' = (case sig_text s of JStr t \<Rightarrow> JStr (take 50 t) | _ \<Rightarrow> JUndefined)" for p'
      using p kp td that
      by (cases "getProp raw ''text''"; cases "getProp raw ''description''")
         (auto simp: f(4) optSubstring_def jsOr_def truthy_def split: if_splits)
    then obtain p' where "optSubstring (sig_text s) 50 = Inr p'" "jsOr p' (JStr []) = k"
      by blast
    then have "idKey (asRaw s) = Inr k"
      by (simp add: idKey_def getProp_asRaw u truthy_def)
    with k show ?thesis
      by simp
  qed
qed

text \<open>A signal made from such a record keeps its id when normalized again.\<close>

lemma renormalize_id:
  assumes "normalizeSignal now1 now2 raw = Inr s" and "spec_keptKey raw"
  shows "\<exists>s'. normalizeSignal now3 now4 (asRaw s) = Inr s' \<and> sig_id s' = sig_id s"
proof -
  note f = normalizeSignal_fields [OF assms(1)]
  from assms(2) have k: "truthy (getProp raw ''source'')" "truthy (getProp raw ''subSource'')"
    by (simp_all add: spec_keptKey_def)
  have src: "source s = getProp raw ''source''" and sub: "subSource s = getProp raw ''subSource''"
    using k by (simp_all add: f jsOr_def)
  have g1: "generateId raw = Inr (sig_id s)"
    by (rule normalizeSignal_id [OF assms(1)])
  obtain key where key1: "idKey raw = Inr key" and key2: "idKey (asRaw s) = Inr key"
    using keptKey_idKey [OF assms] by blast
  have n1: "\<not> nullish raw"
    using g1 by (auto simp: generateId_def split: if_splits)
  have g2: "generateId (asRaw s) = generateId raw"
    using n1 by (simp add: generateId_def not_nullish_asRaw key1 key2 getProp_asRaw src sub)
  have "\<exists>ttl. orElse (jsOr (getProp (asRaw s) ''name'') (getProp (asRaw s) ''title''))
                 (extractTitle (asRaw s)) = Inr ttl"
  proof (cases "truthy (title s)")
    case True
    then show ?thesis
      by (simp add: orElse_def getProp_asRaw jsOr_def truthy_def)
  next
    case False
    then obtain str where "sig_text s = JStr str" "str \<noteq> []"
      using empty_title_text [OF assms(1)] by blast
    then have "\<exists>t. extractTitle (asRaw s) = Inr t"
      by (simp add: extractTitle_def not_nullish_asRaw getProp_asRaw truthy_def)
    then show ?thesis
      by (auto simp: orElse_def)
  qed
  then obtain ttl where ttl: "orElse (jsOr (getProp (asRaw s) ''name'') (getProp (asRaw s) ''title''))
                 (extractTitle (asRaw s)) = Inr ttl"
    by blast
  obtain tps where tps: "dedupeTopics (jsOr (getProp (asRaw s) ''topics'') (JArr [])) = Inr tps"
    using dedupeTopics_strings by (auto simp: getProp_asRaw)
  have ty: "orElse (getProp (asRaw s) ''signalType'') (classifySignalType (asRaw s)) = Inr (signalType s)"
    using signalType_truthy [OF assms(1)] by (simp add: orElse_def getProp_asRaw)
  show ?thesis
    by (simp add: normalizeSignal_def g2 g1 ttl tps ty)
qed

text \<open>The sort of \<open>normalizeAll\<close>, whose comparator may throw.\<close>

lemma mset_insertByThrowing:
  assumes "insertByThrowing cmp x ys = Inr zs"
  shows "mset zs = add_mset x (mset ys)"
  using assms
proof (induction ys arbitrary: zs)
  case Nil
  then show ?case by auto
next
  case (Cons y ys)
  from Cons.prems obtain c where c: "cmp x y = Inr c"
    by (auto split: sum.splits)
  show ?case
  proof (cases "c \<le> 0")
    case True
    with Cons.prems c show ?thesis by auto
  next
    case False
    with Cons.prems c obtain zs' where z: "insertByThrowing cmp x ys = Inr zs'" and e: "zs = y # zs'"
      by (auto split: sum.splits)
    from Cons.IH [OF z] e show ?thesis by simp
  qed
qed

lemma mset_jsSortThrowing:
  assumes "jsSortThrowing cmp xs = Inr ys"
  shows "mset ys = mset xs"
  using assms
proof (induction xs arbitrary: ys)
  case Nil
  then show ?case by simp
next
  case (Cons x xs)
  from Cons.prems obtain ys' where s: "jsSortThrowing cmp xs = Inr ys'"
    and i: "insertByThrowing cmp x ys' = Inr ys"
    by (auto split: sum.splits)
  from Cons.IH [OF s] mset_insertByThrowing [OF i] show ?case by simp
qed

lemma insertByThrowing_total:
  assumes "\<forall>y \<in> set ys. \<exists>c. cmp x y = Inr c"
  shows "\<exists>zs. insertByThrowing cmp x ys = Inr zs"
  using assms
proof (induction ys)
  case Nil
  then show ?case by simp
next
  case (Cons y ys)
  then obtain c where c: "cmp x y = Inr c"
    by (meson list.set_intros(1))
  from Cons obtain zs where "insertByThrowing cmp x ys = Inr zs"
    by auto
  with c show ?case by simp
qed

lemma jsSortThrowing_total:
  assumes "\<forall>x \<in> set xs. \<forall>y \<in> set xs. \<exists>c. cmp x y = Inr c"
  shows "\<exists>ys. jsSortThrowing cmp xs = Inr ys"
  using assms
proof (induction xs)
  case Nil
  then show ?case by simp
next
  case (Cons x xs)
  then obtain ys where s: "jsSortThrowing cmp xs = Inr ys"
    by auto
  have "set ys = set xs"
    using mset_jsSortThrowing [OF s] by (rule mset_eq_setD)
  with Cons.prems have "\<forall>y \<in> set ys. \<exists>c. cmp x y = Inr c"
    by simp
  then have "\<exists>zs. insertByThrowing cmp x ys = Inr zs"
    by (rule insertByThrowing_total)
  with s show ?case by auto
qed

text \<open>\<open>new Date(v)\<close> returns exactly for the values that \<open>String(v)\<close> converts.\<close>

lemma newDate_returns:
  "(\<exists>d. newDate dateValue v = Inr d) = spec_convertsToString v"
  by (cases v) (auto simp: newDate_def spec_convertsToString_def split: sum.splits)

lemma byDateDesc_returns:
  "(\<exists>c. byDateDesc dateValue a b = Inr c)
     = (spec_convertsToString (date a) \<and> spec_convertsToString (date b))"
proof -
  have "(\<exists>c. byDateDesc dateValue a b = Inr c)
      = ((\<exists>d. newDate dateValue (date a) = Inr d) \<and> (\<exists>d. newDate dateValue (date b) = Inr d))"
    by (auto simp: byDateDesc_def split: sum.splits)
  then show ?thesis
    by (simp add: newDate_returns)
qed

text \<open>With two signals or more, the sort hands the date of every signal to \<open>new Date\<close>.\<close>

lemma jsSortThrowing_compares:
  assumes "jsSortThrowing (byDateDesc dateValue) xs = Inr ys" and "2 \<le> length xs"
  shows "\<forall>x \<in> set xs. spec_convertsToString (date x)"
  using assms
proof (induction xs arbitrary: ys)
  case Nil
  then show ?case by simp
next
  case (Cons x rest)
  from Cons.prems(1) obtain ys' where s: "jsSortThrowing (byDateDesc dateValue) rest = Inr ys'"
    and i: "insertByThrowing (byDateDesc dateValue) x ys' = Inr ys"
    by (auto split: sum.splits)
  have m: "mset ys' = mset rest"
    by (rule mset_jsSortThrowing [OF s])
  from Cons.prems(2) have "rest \<noteq> []"
    by auto
  with m have "ys' \<noteq> []"
    by auto
  then obtain y ys'' where y: "ys' = y # ys''"
    by (cases ys') auto
  from i y obtain c where c: "byDateDesc dateValue x y = Inr c"
    by (auto split: sum.splits)
  then have cx: "spec_convertsToString (date x)" and cy: "spec_convertsToString (date y)"
    using byDateDesc_returns [of dateValue x y] by auto
  have "\<forall>z \<in> set rest. spec_convertsToString (date z)"
  proof (cases "2 \<le> length rest")
    case True
    from Cons.IH [OF s True] show ?thesis .
  next
    case False
    with \<open>rest \<noteq> []\<close> obtain z where z: "rest = [z]"
      by (cases rest; cases "tl rest") auto
    with m y have "y = z"
      by auto
    with cy z show ?thesis
      by simp
  qed
  with cx show ?case
    by simp
qed

lemma jsSortThrowing_short:
  assumes "length xs \<le> 1"
  shows "\<exists>ys. jsSortThrowing cmp xs = Inr ys"
proof (cases xs)
  case Nil
  then show ?thesis by simp
next
  case (Cons x rest)
  with assms have "rest = []"
    by simp
  with Cons show ?thesis by simp
qed

lemma jsSortThrowing_dates:
  assumes "\<forall>x \<in> set xs. spec_convertsToString (date x)"
  shows "\<exists>ys. jsSortThrowing (byDateDesc dateValue) xs = Inr ys"
proof (rule jsSortThrowing_total)
  show "\<forall>x \<in> set xs. \<forall>y \<in> set xs. \<exists>c. byDateDesc dateValue x y = Inr c"
    using assms by (simp add: byDateDesc_returns)
qed

text \<open>The date of a signal, and of the signal made from it.\<close>

lemma normalizeSignal_date:
  assumes "normalizeSignal now1 now2 raw = Inr s" and "spec_datesConvert raw"
  shows "spec_convertsToString (date s)"
proof -
  note f = normalizeSignal_fields [OF assms(1)]
  from assms(2) show ?thesis
    by (simp add: f(7) spec_datesConvert_def converts_jsOr)
qed

lemma renormalize_date:
  assumes "normalizeSignal now1 now2 raw = Inr s"
    and "normalizeSignal now3 now4 (asRaw s) = Inr s'"
    and "spec_convertsToString (date s)"
  shows "spec_convertsToString (date s')"
proof -
  note f = normalizeSignal_fields [OF assms(1)]
  note f' = normalizeSignal_fields [OF assms(2)]
  have d': "date s' = jsOr (jsOr (jsOr (date s) JUndefined) (collectedAt s)) (JStr now3)"
    by (simp add: f'(7) getProp_asRaw)
  show ?thesis
  proof (cases "truthy (date s)")
    case True
    then have "date s' = date s"
      by (simp add: d' jsOr_def)
    with assms(3) show ?thesis by simp
  next
    case False
    then have "\<not> truthy (getProp raw ''collectedAt'')"
      by (auto simp: f(7) jsOr_def split: if_splits)
    then have "collectedAt s = JStr now2"
      by (simp add: f(8) jsOr_def)
    then have "date s' = JStr now2 \<or> date s' = JStr now3"
      using False by (auto simp: d' jsOr_def truthy_def)
    then show ?thesis
      by auto
  qed
qed

text \<open>The loop: it returns when every record normalizes, and the ids it returns.\<close>

lemma normalizeLoop_total:
  assumes "\<forall>raw \<in> set raws. \<forall>a b. \<exists>s. normalizeSignal a b raw = Inr s"
  shows "\<exists>res. normalizeLoop clock i seen acc raws = Inr res"
  using assms
proof (induction raws arbitrary: i seen acc)
  case Nil
  then show ?case by simp
next
  case (Cons raw rest)
  then obtain s where s: "normalizeSignal (fst (clock i)) (snd (clock i)) raw = Inr s"
    by (meson list.set_intros(1))
  from Cons.prems have rest: "\<forall>raw \<in> set rest. \<forall>a b. \<exists>s. normalizeSignal a b raw = Inr s"
    by simp
  show ?case
    using Cons.IH [OF rest] by (simp add: s)
qed

lemma normalizeLoop_ids:
  assumes "normalizeLoop clock i seen acc raws = Inr res"
    and "seen = set (map sig_id acc)" and "distinct (map sig_id acc)"
  shows "distinct (map sig_id res)
       \<and> set (map sig_id res) = set (map sig_id acc) \<union> {j. \<exists>raw \<in> set raws. generateId raw = Inr j}
       \<and> (\<forall>s \<in> set res. s \<in> set acc \<or> (\<exists>raw \<in> set raws. \<exists>a b. normalizeSignal a b raw = Inr s))"
  using assms
proof (induction raws arbitrary: i seen acc)
  case Nil
  then show ?case by auto
next
  case (Cons raw rest)
  from Cons.prems(1) obtain s where s: "normalizeSignal (fst (clock i)) (snd (clock i)) raw = Inr s"
    by (auto split: sum.splits)
  have g: "generateId raw = Inr (sig_id s)"
    by (rule normalizeSignal_id [OF s])
  show ?case
  proof (cases "sig_id s \<in> seen")
    case True
    with Cons.prems(1) s have loop: "normalizeLoop clock (i + 1) seen acc rest = Inr res"
      by simp
    note ih = Cons.IH [OF loop Cons.prems(2,3)]
    from True Cons.prems(2) have "sig_id s \<in> set (map sig_id acc)"
      by simp
    with ih g show ?thesis
      by auto
  next
    case False
    with Cons.prems(1) s
    have loop: "normalizeLoop clock (i + 1) (insert (sig_id s) seen) (acc @ [s]) rest = Inr res"
      by simp
    have seen': "insert (sig_id s) seen = set (map sig_id (acc @ [s]))"
      using Cons.prems(2) by simp
    have dist': "distinct (map sig_id (acc @ [s]))"
      using Cons.prems(2,3) False by simp
    note ih = Cons.IH [OF loop seen' dist']
    have a: "distinct (map sig_id res)"
      using ih by blast
    have b: "set (map sig_id res) =
        set (map sig_id acc) \<union> {j. \<exists>raw \<in> set (raw # rest). generateId raw = Inr j}"
      using ih g by auto
    have c: "\<forall>t \<in> set res. t \<in> set acc \<or>
        (\<exists>raw \<in> set (raw # rest). \<exists>a b. normalizeSignal a b raw = Inr t)"
    proof
      fix t assume "t \<in> set res"
      with ih have "t \<in> set (acc @ [s]) \<or> (\<exists>raw \<in> set rest. \<exists>a b. normalizeSignal a b raw = Inr t)"
        by blast
      then show "t \<in> set acc \<or> (\<exists>raw \<in> set (raw # rest). \<exists>a b. normalizeSignal a b raw = Inr t)"
        using s by auto
    qed
    from a b c show ?thesis by blast
  qed
qed

lemma normalizeLoop_start:
  assumes "normalizeLoop clock 0 {} [] raws = Inr normalized"
  shows "distinct (map sig_id normalized)"
    and "set (map sig_id normalized) = {j. \<exists>raw \<in> set raws. generateId raw = Inr j}"
    and "\<forall>s \<in> set normalized. \<exists>raw \<in> set raws. \<exists>a b. normalizeSignal a b raw = Inr s"
proof -
  have "distinct (map sig_id normalized)
       \<and> set (map sig_id normalized) = set (map sig_id []) \<union> {j. \<exists>raw \<in> set raws. generateId raw = Inr j}
       \<and> (\<forall>s \<in> set normalized. s \<in> set [] \<or> (\<exists>raw \<in> set raws. \<exists>a b. normalizeSignal a b raw = Inr s))"
    using normalizeLoop_ids [OF assms, simplified] by simp
  then show "distinct (map sig_id normalized)"
    and "set (map sig_id normalized) = {j. \<exists>raw \<in> set raws. generateId raw = Inr j}"
    and "\<forall>s \<in> set normalized. \<exists>raw \<in> set raws. \<exists>a b. normalizeSignal a b raw = Inr s"
    by simp_all
qed

lemma normalizeAll_parts:
  assumes "normalizeAll dateValue clock raws = Inr sigs"
  shows "\<exists>normalized. normalizeLoop clock 0 {} [] raws = Inr normalized
           \<and> jsSortThrowing (byDateDesc dateValue) normalized = Inr sigs
           \<and> mset sigs = mset normalized"
proof -
  from assms obtain normalized where l: "normalizeLoop clock 0 {} [] raws = Inr normalized"
    and s: "jsSortThrowing (byDateDesc dateValue) normalized = Inr sigs"
    by (auto simp: normalizeAll_def split: sum.splits)
  from mset_jsSortThrowing [OF s] l s show ?thesis
    by blast
qed

lemma normalizeAll_ids:
  assumes "normalizeAll dateValue clock raws = Inr sigs"
  shows "distinct (map sig_id sigs)"
    and "set (map sig_id sigs) = {j. \<exists>raw \<in> set raws. generateId raw = Inr j}"
    and "\<forall>s \<in> set sigs. \<exists>raw \<in> set raws. \<exists>a b. normalizeSignal a b raw = Inr s"
proof -
  from normalizeAll_parts [OF assms] obtain normalized
    where l: "normalizeLoop clock 0 {} [] raws = Inr normalized"
      and m: "mset sigs = mset normalized"
    by blast
  note n = normalizeLoop_start [OF l]
  from m have mm: "mset (map sig_id sigs) = mset (map sig_id normalized)"
    by simp
  have st: "set sigs = set normalized"
    using m by (rule mset_eq_setD)
  show "distinct (map sig_id sigs)"
    using n(1) mset_eq_imp_distinct_iff [OF mm] by simp
  show "set (map sig_id sigs) = {j. \<exists>raw \<in> set raws. generateId raw = Inr j}"
    using n(2) st by simp
  show "\<forall>s \<in> set sigs. \<exists>raw \<in> set raws. \<exists>a b. normalizeSignal a b raw = Inr s"
    using n(3) st by simp
qed

text \<open>The first pass returns on records of the expected shape whose dates convert.\<close>

lemma normalizeAll_returns:
  assumes "\<forall>raw \<in> set raws. spec_wellFormedRaw raw \<and> spec_datesConvert raw"
  shows "\<exists>sigs. normalizeAll dateValue clock raws = Inr sigs"
proof -
  from assms have "\<forall>raw \<in> set raws. \<forall>a b. \<exists>s. normalizeSignal a b raw = Inr s"
    using normalizeSignal_returns by blast
  from normalizeLoop_total [OF this]
  obtain normalized where l: "normalizeLoop clock 0 {} [] raws = Inr normalized"
    by blast
  note n = normalizeLoop_start [OF l]
  have "\<forall>s \<in> set normalized. spec_convertsToString (date s)"
  proof
    fix s assume "s \<in> set normalized"
    with n(3) obtain raw a b where "raw \<in> set raws" and s: "normalizeSignal a b raw = Inr s"
      by blast
    with assms have "spec_datesConvert raw"
      by blast
    from normalizeSignal_date [OF s this] show "spec_convertsToString (date s)" .
  qed
  from jsSortThrowing_dates [OF this]
  obtain sigs where "jsSortThrowing (byDateDesc dateValue) normalized = Inr sigs"
    by blast
  with l show ?thesis
    by (simp add: normalizeAll_def)
qed

text \<open>The second pass returns whenever the first did, with the same ids.\<close>

lemma normalizeAll_again:
  assumes k: "\<forall>raw \<in> set raws. spec_keptKey raw"
    and p1: "normalizeAll dateValue clock raws = Inr sigs"
  shows "\<exists>sigs'. normalizeAll dateValue' clock' (map asRaw sigs) = Inr sigs'
           \<and> set (map sig_id sigs') = set (map sig_id sigs)
           \<and> distinct (map sig_id sigs) \<and> distinct (map sig_id sigs')
           \<and> length sigs' = length sigs"
proof -
  note i1 = normalizeAll_ids [OF p1]
  from normalizeAll_parts [OF p1] obtain normalized
    where s1: "jsSortThrowing (byDateDesc dateValue) normalized = Inr sigs"
      and m1: "mset sigs = mset normalized"
    by blast
  have again: "\<exists>s'. normalizeSignal a b (asRaw s) = Inr s' \<and> sig_id s' = sig_id s"
    if "s \<in> set sigs" for s a b
  proof -
    from that i1(3) obtain raw a0 b0 where r: "raw \<in> set raws"
      and n: "normalizeSignal a0 b0 raw = Inr s"
      by blast
    from r k have "spec_keptKey raw"
      by blast
    from renormalize_id [OF n this] show ?thesis .
  qed
  have gen: "generateId (asRaw s) = Inr (sig_id s)" if "s \<in> set sigs" for s
  proof -
    from again [OF that] obtain s' where "normalizeSignal [] [] (asRaw s) = Inr s'"
      and "sig_id s' = sig_id s"
      by blast
    with normalizeSignal_id [of "[]" "[]" "asRaw s" s'] show ?thesis
      by simp
  qed
  have "\<forall>raw \<in> set (map asRaw sigs). \<forall>a b. \<exists>s. normalizeSignal a b raw = Inr s"
  proof (intro ballI allI)
    fix raw a b assume "raw \<in> set (map asRaw sigs)"
    then obtain s where "s \<in> set sigs" and "raw = asRaw s"
      by auto
    with again [of s a b] show "\<exists>s. normalizeSignal a b raw = Inr s"
      by blast
  qed
  from normalizeLoop_total [OF this]
  obtain normalized' where l2: "normalizeLoop clock' 0 {} [] (map asRaw sigs) = Inr normalized'"
    by blast
  note n2 = normalizeLoop_start [OF l2]
  have ids2: "set (map sig_id normalized') = set (map sig_id sigs)"
  proof -
    have "{j. \<exists>raw \<in> set (map asRaw sigs). generateId raw = Inr j} = set (map sig_id sigs)"
      using gen by auto
    with n2(2) show ?thesis
      by simp
  qed
  have len2: "length normalized' = length sigs"
  proof -
    have "length normalized' = card (set (map sig_id normalized'))"
      using distinct_card [OF n2(1)] by simp
    also have "\<dots> = card (set (map sig_id sigs))"
      by (simp only: ids2)
    also have "\<dots> = length sigs"
      using distinct_card [OF i1(1)] by simp
    finally show ?thesis .
  qed
  have "\<exists>sigs'. jsSortThrowing (byDateDesc dateValue') normalized' = Inr sigs'"
  proof (cases "2 \<le> length sigs")
    case False
    with len2 have "length normalized' \<le> 1"
      by simp
    then show ?thesis
      by (rule jsSortThrowing_short)
  next
    case True
    from m1 have "length normalized = length sigs"
      by (metis size_mset)
    with True have "2 \<le> length normalized"
      by simp
    from jsSortThrowing_compares [OF s1 this] m1
    have d1: "\<forall>s \<in> set sigs. spec_convertsToString (date s)"
      by (metis mset_eq_setD)
    have "\<forall>t \<in> set normalized'. spec_convertsToString (date t)"
    proof
      fix t assume "t \<in> set normalized'"
      with n2(3) obtain s a b where s: "s \<in> set sigs"
        and t: "normalizeSignal a b (asRaw s) = Inr t"
        by auto
      from s i1(3) obtain raw a0 b0 where n: "normalizeSignal a0 b0 raw = Inr s"
        by blast
      from d1 s have "spec_convertsToString (date s)"
        by blast
      from renormalize_date [OF n t this] show "spec_convertsToString (date t)" .
    qed
    then show ?thesis
      by (rule jsSortThrowing_dates)
  qed
  then obtain sigs' where s2: "jsSortThrowing (byDateDesc dateValue') normalized' = Inr sigs'"
    by blast
  from l2 s2 have p2: "normalizeAll dateValue' clock' (map asRaw sigs) = Inr sigs'"
    by (simp add: normalizeAll_def)
  from mset_jsSortThrowing [OF s2] have m2: "mset sigs' = mset normalized'" .
  have "set sigs' = set normalized'"
    using m2 by (rule mset_eq_setD)
  then have a: "set (map sig_id sigs') = set (map sig_id sigs)"
    using ids2 by simp
  have b: "distinct (map sig_id sigs')"
    by (rule normalizeAll_ids(1) [OF p2])
  have c: "length sigs' = length sigs"
    using m2 len2 by (metis size_mset)
  from p2 a i1(1) b c show ?thesis
    by blast
qed

text \<open>
  C6, as the code has it. Take raw records that each carry a source and a subSource and
  are keyed by a field that a signal keeps: by their url, or, having no name and no
  \<open>news_url\<close> or \<open>html_url\<close>, by their text. Whenever \<open>normalizeAll\<close> returns on
  them, normalizing its output again returns as well, and the two outputs hold the same
  ids, each id once: no signal is dropped the second time and no id changes. And
  \<open>normalizeAll\<close> does return on them when each record is of the expected shape and
  its date fields convert to strings.
\<close>

theorem normalizeAll_twice_same_ids:
  assumes "\<forall>raw \<in> set raws. spec_keptKey raw"
  shows "(\<forall>sigs. normalizeAll dateValue clock raws = Inr sigs \<longrightarrow>
            (\<exists>sigs'. normalizeAll dateValue' clock' (map asRaw sigs) = Inr sigs'
                \<and> set (map sig_id sigs') = set (map sig_id sigs)
                \<and> distinct (map sig_id sigs) \<and> distinct (map sig_id sigs')
                \<and> length sigs' = length sigs))
       \<and> ((\<forall>raw \<in> set raws. spec_wellFormedRaw raw \<and> spec_datesConvert raw) \<longrightarrow>
            (\<exists>sigs. normalizeAll dateValue clock raws = Inr sigs))"
  using normalizeAll_again [OF assms] normalizeAll_returns by blast

text \<open>The two repository records of the spec's scenario: same name, different star counts.\<close>

theorem fingerprint_stable_witness:
  "getProp (githubRepoRaw 10) ''source'' = getProp (githubRepoRaw 25) ''source''
   \<and> getProp (githubRepoRaw 10) ''subSource'' = getProp (githubRepoRaw 25) ''subSource''
   \<and> spec_firstAvailable (githubRepoRaw 10) = spec_firstAvailable (githubRepoRaw 25)
   \<and> (\<exists>s1 s2. normalizeSignal sampleNow1 sampleNow1 (githubRepoRaw 10) = Inr s1
          \<and> normalizeSignal sampleNow2 sampleNow2 (githubRepoRaw 25) = Inr s2
          \<and> sig_id s1 = sig_id s2)"
proof -
  have h1: "getProp (githubRepoRaw 10) ''source'' = getProp (githubRepoRaw 25) ''source''"
    by (simp add: githubRepoRaw_def)
  have h2: "getProp (githubRepoRaw 10) ''subSource'' = getProp (githubRepoRaw 25) ''subSource''"
    by (simp add: githubRepoRaw_def)
  have h3: "spec_firstAvailable (githubRepoRaw 10) = spec_firstAvailable (githubRepoRaw 25)"
    by (simp add: githubRepoRaw_def spec_firstAvailable_def)
  have "spec_wellFormedRaw (githubRepoRaw 10)" "spec_wellFormedRaw (githubRepoRaw 25)"
    by code_simp+
  then obtain s1 s2 where s1: "normalizeSignal sampleNow1 sampleNow1 (githubRepoRaw 10) = Inr s1"
    and s2: "normalizeSignal sampleNow2 sampleNow2 (githubRepoRaw 25) = Inr s2"
    using normalizeSignal_returns by blast
  from fingerprint_stable [OF h1 h2 h3 s1 s2] h1 h2 h3 s1 s2 show ?thesis
    by blast
qed

text \<open>
  C7 as stated fails: \<open>null\<close> is a JSON value, and so is a record whose text is the
  number 123; on both \<open>normalizeSignal\<close> throws a TypeError.
\<close>

theorem normalizeSignal_throws_counterexample:
  "normalizeSignal sampleNow1 sampleNow2 JNull = Inl TypeError
   \<and> normalizeSignal sampleNow1 sampleNow2 numericTextRaw = Inl TypeError"
  by code_simp

text \<open>
  So does a record one of whose topics is an object with a property \<open>toString\<close> that is
  not a function: \<open>String(t)\<close> throws on that topic. Such a record is not of the expected
  shape.
\<close>

lemma normalizeSignal_unprintable_topic:
  "normalizeSignal sampleNow1 sampleNow2 unprintableTopicRaw = Inl TypeError
   \<and> \<not> spec_wellFormedRaw unprintableTopicRaw"
  by code_simp

text \<open>The empty record: every field gets its default.\<close>

theorem normalizeSignal_total_defaults_witness:
  "spec_wellFormedRaw (JObj [])
   \<and> (\<exists>s. normalizeSignal sampleNow1 sampleNow2 (JObj []) = Inr s
        \<and> source s = JStr ''unknown'' \<and> subSource s = JStr ''unknown''
        \<and> title s = JStr ''Untitled Signal'' \<and> sig_text s = JStr [] \<and> url s = JNull
        \<and> date s = JStr sampleNow1 \<and> collectedAt s = JStr sampleNow2 \<and> topics s = []
        \<and> sentiment s = JStr ''neutral'' \<and> signalType s = JStr ''general''
        \<and> engagement s = JNull \<and> stars s = JNull \<and> marketCap s = JNull
        \<and> username s = JNull \<and> ticker s = JNull \<and> address s = JNull
        \<and> keyInsight s = JNull \<and> dataPoint s = JNull)"
proof -
  have h: "spec_wellFormedRaw (JObj [])"
    by code_simp
  have m: "truthy JUndefined = False"
    by (simp add: truthy_def)
  from normalizeSignal_total_defaults [OF h, of sampleNow1 sampleNow2] h
  show ?thesis
    by (simp add: m)
qed

text \<open>
  C6 as stated fails. Two token records are keyed by their names, which a signal does
  not keep: the first pass gives two ids, the second pass gives both signals one new id
  and drops the second signal as a duplicate.
\<close>

theorem name_keyed_ids_change_counterexample:
  "(case normalizeAll sampleDateValue sampleClock [pumpfunRaw ''dogwifhat'', pumpfunRaw ''bonk''] of
      Inl e \<Rightarrow> None
    | Inr sigs \<Rightarrow>
        (case normalizeAll sampleDateValue sampleClock (map asRaw sigs) of
           Inl e \<Rightarrow> None
         | Inr sigs' \<Rightarrow> Some (map sig_id sigs, map sig_id sigs')))
   = Some ([''sig_rdc2gi'', ''sig_u577z5''], [''sig_w0nf9''])"
  by code_simp

text \<open>
  Three repository records with urls, one of them a duplicate, and two posts keyed by
  their texts: four ids, the same after a second pass.
\<close>

theorem normalizeAll_twice_same_ids_witness:
  "list_all spec_keptKey sampleKeptRaws
   \<and> list_all (\<lambda>raw. spec_wellFormedRaw raw \<and> spec_datesConvert raw) sampleKeptRaws
   \<and> (\<exists>sigs sigs'.
           normalizeAll sampleDateValue sampleClock sampleKeptRaws = Inr sigs
         \<and> normalizeAll sampleDateValue sampleClock (map asRaw sigs) = Inr sigs'
         \<and> set (map sig_id sigs') = set (map sig_id sigs)
         \<and> distinct (map sig_id sigs) \<and> distinct (map sig_id sigs')
         \<and> length sigs' = length sigs)"
proof -
  have h1: "list_all spec_keptKey sampleKeptRaws"
    by code_simp
  have h2: "list_all (\<lambda>raw. spec_wellFormedRaw raw \<and> spec_datesConvert raw) sampleKeptRaws"
    by code_simp
  from h1 have k: "\<forall>raw \<in> set sampleKeptRaws. spec_keptKey raw"
    by (simp add: list_all_iff)
  from h2 have w: "\<forall>raw \<in> set sampleKeptRaws. spec_wellFormedRaw raw \<and> spec_datesConvert raw"
    by (simp add: list_all_iff)
  from normalizeAll_twice_same_ids [OF k, of sampleDateValue sampleClock sampleDateValue sampleClock]
    w h1 h2
  show ?thesis
    by blast
qed


section \<open>Properties of the collection step\<close>

text \<open>
  C8. Whatever the four adapters do, each settling with a list of records or with a
  failure, the collection step returns and does not throw; its output is the successful
  adapters' lists, concatenated in the order social, onchain, github, research, a failed
  adapter adding nothing; its length is the sum of the lengths of the successful lists;
  and when all four fail the output is empty.
\<close>

theorem collectRaw_concatenates:
  "collectRaw social onchain github research
     = Inr (concat (map (case_sum (\<lambda>reason. []) (\<lambda>records. records))
                        [social, onchain, github, research]))
   \<and> (\<exists>out. collectRaw social onchain github research = Inr out
         \<and> length out = sum_list (map (case_sum (\<lambda>reason. 0) length)
                                       [social, onchain, github, research]))
   \<and> collectRaw (Inl r1) (Inl r2) (Inl r3) (Inl r4) = Inr []"
  by (simp add: collectRaw_def allSettled_def pushSettled_def split: sum.splits)



section \<open>Properties of the store\<close>





















end
